theory Spec2Isabelle
  imports Main "HOL-Library.AList"
begin

section \<open>Data model of the primary selector\<close>

text \<open>
  The development embeds \<^verbatim>\<open>plenum/server/primary_selector.py\<close> (class
  \<^verbatim>\<open>PrimarySelector\<close>). Object state is passed explicitly: every method that
  mutates \<^verbatim>\<open>self\<close> takes the selector and returns the updated one. A Python
  exception is a value \<open>Inl e\<close> of the result; the mutations done before the raise stay
  in the returned state, as they do in Python.

  Instance ids, view numbers, the fault bound and the number of nodes are natural
  numbers (the message schema and the node only produce non-negative values).
  Python dictionaries keep insertion order, and the order decides which of two equally
  frequent votes \<^verbatim>\<open>mostCommonElement\<close> returns, so a dictionary is an association list:
  \<open>map_of\<close> reads a key and \<open>AList.update\<close> writes one (in place when the key exists,
  at the end otherwise).
\<close>

type_synonym node_name = string

text \<open>
  Modelled from the spec: class \<^verbatim>\<open>Replica\<close> (\<^verbatim>\<open>plenum/server/replica.py\<close>) is
  not among the sources. The specification describes a replica name as the composite
  identifier of a node name and an instance id, derivable from its parts
  (\<^verbatim>\<open>Replica.generateName\<close>), with the node name recoverable from it
  (\<^verbatim>\<open>Replica.getNodeName\<close>). Of a replica object the selector only reads and writes
  the primary name (\<^verbatim>\<open>primaryName\<close>, \<^verbatim>\<open>hasPrimary\<close>, \<^verbatim>\<open>primaryChanged\<close>).
\<close>

datatype replica_name = ReplicaName node_name nat

definition generateName :: "node_name \<Rightarrow> nat \<Rightarrow> replica_name" where
  "generateName nodeName instId = ReplicaName nodeName instId"

fun getNodeName :: "replica_name \<Rightarrow> node_name" where
  "getNodeName (ReplicaName nodeName instId) = nodeName"

record replica =
  primaryName :: "replica_name option"

definition hasPrimary :: "replica \<Rightarrow> bool" where
  "hasPrimary r = (primaryName r \<noteq> None)"

definition primaryChanged :: "replica_name \<Rightarrow> replica \<Rightarrow> replica" where
  "primaryChanged newName r = r\<lparr>primaryName := Some newName\<rparr>"

text \<open>
  A ledger summary is the triple (ledger id, size, root hash); the ledger info of a vote
  is the sequence of summaries in the ledger registry's order. The conversion
  \<^verbatim>\<open>tuple(tuple(i) for i in info)\<close> of \<^verbatim>\<open>has_sufficient_same_view_change_done_messages\<close>
  only makes the value hashable; on HOL lists it is the identity.
\<close>

type_synonym ledger_summary = "nat \<times> nat \<times> string"
type_synonym ledger_info = "ledger_summary list"

text \<open>The message \<^verbatim>\<open>ViewChangeDone(name, instId, viewNo, ledgerInfo)\<close>.\<close>

record ViewChangeDone =
  name :: replica_name
  instId :: nat
  viewNo :: nat
  ledgerInfo :: ledger_info

type_synonym vote_data = "replica_name \<times> ledger_info"
type_synonym declarations = "(replica_name \<times> vote_data) list"
type_synonym vote_ledger = "(nat \<times> declarations) list"

datatype error = IndexError | KeyError | ZeroDivisionError

text \<open>
  The selector with the parts of its collaborators it uses: the fields of
  \<^verbatim>\<open>PrimaryDecider\<close> (\<^verbatim>\<open>name\<close>, \<^verbatim>\<open>f\<close>, \<^verbatim>\<open>viewNo\<close>, \<^verbatim>\<open>replicas\<close>), its own
  (\<^verbatim>\<open>previous_master_primary\<close>, \<^verbatim>\<open>_view_change_done\<close>), the ledger manager's
  summaries, the node's \<^verbatim>\<open>totalNodes\<close> and \<^verbatim>\<open>get_name_by_rank\<close>, the number of calls
  of \<^verbatim>\<open>node.primary_found()\<close> made so far, and the messages handed to \<^verbatim>\<open>send\<close>.
\<close>

record selector =
  self_name :: node_name
  self_f :: nat
  self_viewNo :: nat
  self_replicas :: "replica list"
  previous_master_primary :: "node_name option"
  view_change_done :: vote_ledger
  self_ledger_info :: ledger_info
  node_totalNodes :: nat
  node_get_name_by_rank :: "nat \<Rightarrow> node_name"
  node_primary_found_calls :: nat
  sent :: "ViewChangeDone list"

section \<open>Helpers of \<^verbatim>\<open>plenum.common.util\<close>\<close>

text \<open>
  Modelled from the spec: \<^verbatim>\<open>get_strong_quorum\<close> is not among the sources; the
  specification gives \<open>strong_quorum(f) = 2f + 1\<close>.
\<close>

definition get_strong_quorum :: "nat \<Rightarrow> nat" where
  "get_strong_quorum f = 2 * f + 1"

text \<open>
  Modelled from the spec: \<^verbatim>\<open>mostCommonElement\<close> is not among the sources; the
  specification asks for the most frequent element, ties broken arbitrarily. The model
  returns the first element of the sequence whose count is maximal, and fails on the
  empty sequence, which has no element to return.
\<close>

definition mostCommonElement :: "'a list \<Rightarrow> error + 'a" where
  "mostCommonElement elements =
     (case elements of
        [] \<Rightarrow> Inl IndexError
      | x # _ \<Rightarrow>
          Inr (fold (\<lambda>y best. if count_list elements best < count_list elements y
                                then y else best) elements x))"

section \<open>The methods of \<^verbatim>\<open>PrimarySelector\<close>\<close>

text \<open>\<^verbatim>\<open>self._view_change_done.get(instance_id, {})\<close>\<close>

definition declarations_of :: "vote_ledger \<Rightarrow> nat \<Rightarrow> declarations" where
  "declarations_of vcd instance_id =
     (case map_of vcd instance_id of None \<Rightarrow> [] | Some d \<Rightarrow> d)"

definition is_master_instance :: "nat \<Rightarrow> bool" where
  "is_master_instance instance_id = (instance_id = 0)"

text \<open>
  \<^verbatim>\<open>_who_is_the_next_primary\<close>: Python's \<^verbatim>\<open>%\<close> raises on a zero divisor.
\<close>

definition who_is_the_next_primary :: "selector \<Rightarrow> nat \<Rightarrow> error + replica_name" where
  "who_is_the_next_primary s instance_id =
     (if node_totalNodes s = 0 then Inl ZeroDivisionError
      else
        let new_primary_id = (self_viewNo s + instance_id) mod node_totalNodes s
        in Inr (generateName (node_get_name_by_rank s new_primary_id) instance_id))"

text \<open>
  \<^verbatim>\<open>_track_view_change_done\<close>: creates the instance's dictionary when it is missing,
  refuses a sender that is already a key of it, stores the vote otherwise.
\<close>

definition track_view_change_done ::
  "nat \<Rightarrow> replica_name \<Rightarrow> replica_name \<Rightarrow> ledger_info \<Rightarrow> selector \<Rightarrow> bool \<times> selector" where
  "track_view_change_done instance_id sender_replica_name new_primary_replica_name ledger_info s =
     (let vcd = view_change_done s;
          data = (new_primary_replica_name, ledger_info)
      in case map_of vcd instance_id of
           None \<Rightarrow>
             (let vcd1 = AList.update instance_id [] vcd
              in (True, s\<lparr>view_change_done :=
                     AList.update instance_id
                       (AList.update sender_replica_name data (declarations_of vcd1 instance_id))
                       vcd1\<rparr>))
         | Some d \<Rightarrow>
             if map_of d sender_replica_name \<noteq> None then (False, s)
             else (True, s\<lparr>view_change_done :=
                     AList.update instance_id (AList.update sender_replica_name data d) vcd\<rparr>))"

text \<open>\<^verbatim>\<open>_hasViewChangeQuorum\<close>; the difference is computed on integers, as in Python.\<close>

definition hasViewChangeQuorum :: "selector \<Rightarrow> nat \<Rightarrow> bool" where
  "hasViewChangeQuorum s instance_id =
     (let declarations = declarations_of (view_change_done s) instance_id;
          num_of_ready_nodes = length declarations;
          quorum = get_strong_quorum (self_f s);
          diff = int quorum - int num_of_ready_nodes
      in if diff > 0 then False else True)"

definition has_view_change_from_primary :: "selector \<Rightarrow> nat \<Rightarrow> error + bool" where
  "has_view_change_from_primary s instance_id =
     (let declarations = declarations_of (view_change_done s) instance_id
      in case who_is_the_next_primary s instance_id of
           Inl e \<Rightarrow> Inl e
         | Inr next_primary_name \<Rightarrow>
             if map_of declarations next_primary_name = None then Inr False else Inr True)"

text \<open>
  \<^verbatim>\<open>has_sufficient_same_view_change_done_messages\<close>: \<open>None\<close> is Python's \<^verbatim>\<open>None\<close>;
  \<^verbatim>\<open>self._view_change_done[instance_id]\<close> raises on a missing instance.
\<close>

definition has_sufficient_same_view_change_done_messages ::
  "selector \<Rightarrow> nat \<Rightarrow> error + vote_data option" where
  "has_sufficient_same_view_change_done_messages s instance_id =
     (case map_of (view_change_done s) instance_id of
        None \<Rightarrow> Inl KeyError
      | Some d \<Rightarrow>
          (let votes = map snd d
           in case mostCommonElement votes of
                Inl e \<Rightarrow> Inl e
              | Inr (new_primary, ledger_info) \<Rightarrow>
                  if count_list votes (new_primary, ledger_info) \<ge> get_strong_quorum (self_f s)
                  then Inr (Some (new_primary, ledger_info))
                  else Inr None))"

definition verify_primary_selection ::
  "selector \<Rightarrow> nat \<Rightarrow> replica_name \<Rightarrow> ledger_info \<Rightarrow> error + bool" where
  "verify_primary_selection s instance_id new_primary ledger_info =
     (case who_is_the_next_primary s instance_id of
        Inl e \<Rightarrow> Inl e
      | Inr expected_primary \<Rightarrow>
          if new_primary \<noteq> expected_primary then Inr False else Inr True)"

text \<open>
  \<^verbatim>\<open>_processViewChangeDoneMessage\<close>. The result is the returned boolean or the
  exception raised, with the selector as the call leaves it.
  \<^verbatim>\<open>self.replicas[instance_id]\<close> raises on an instance without replica, after the vote
  has been stored. \<^verbatim>\<open>discard\<close> and the logger only report; they change nothing here.
\<close>

definition processViewChangeDoneMessage ::
  "selector \<Rightarrow> ViewChangeDone \<Rightarrow> node_name \<Rightarrow> (error + bool) \<times> selector" where
  "processViewChangeDoneMessage s msg sender =
     (let view_no = viewNo msg
      in if self_viewNo s \<noteq> view_no then (Inr False, s)
         else
           let new_primary_replica_name = name msg;
               instance_id = instId msg;
               ledger_info = ledgerInfo msg;
               sender_replica_name = generateName sender instance_id;
               new_primary_node_name = getNodeName new_primary_replica_name
           in if is_master_instance instance_id \<and>
                 Some new_primary_node_name = previous_master_primary s
              then (Inr False, s)
              else
                case track_view_change_done instance_id sender_replica_name
                       new_primary_replica_name ledger_info s of
                  (False, s1) \<Rightarrow> (Inr False, s1)
                | (True, s1) \<Rightarrow>
                    if \<not> instance_id < length (self_replicas s1) then (Inl IndexError, s1)
                    else
                      let replica = self_replicas s1 ! instance_id
                      in if hasPrimary replica then (Inr False, s1)
                         else if \<not> hasViewChangeQuorum s1 instance_id then (Inr False, s1)
                         else
                           (case has_view_change_from_primary s1 instance_id of
                              Inl e \<Rightarrow> (Inl e, s1)
                            | Inr False \<Rightarrow> (Inr False, s1)
                            | Inr True \<Rightarrow>
                                (case has_sufficient_same_view_change_done_messages s1 instance_id of
                                   Inl e \<Rightarrow> (Inl e, s1)
                                 | Inr None \<Rightarrow> (Inr False, s1)
                                 | Inr (Some (new_primary, ledger_info')) \<Rightarrow>
                                     (verify_primary_selection s1 instance_id
                                        new_primary ledger_info', s1))))"

text \<open>
  \<^verbatim>\<open>_send_view_change_done_message\<close>: the message goes to \<^verbatim>\<open>send\<close>, and the same
  vote is stored under this node's own replica name; the result of
  \<^verbatim>\<open>_track_view_change_done\<close> is dropped.
\<close>

definition send_view_change_done_message ::
  "nat \<Rightarrow> replica_name \<Rightarrow> nat \<Rightarrow> selector \<Rightarrow> selector" where
  "send_view_change_done_message instance_id new_primary_name view_no s =
     (let ledger_info = self_ledger_info s;
          message = \<lparr>name = new_primary_name, instId = instance_id,
                     viewNo = view_no, ledgerInfo = ledger_info\<rparr>;
          s1 = s\<lparr>sent := sent s @ [message]\<rparr>;
          replica_name = generateName (self_name s1) instance_id
      in snd (track_view_change_done instance_id replica_name new_primary_name ledger_info s1))"

text \<open>
  \<^verbatim>\<open>_startSelection\<close>: the loop over \<^verbatim>\<open>enumerate(self.replicas)\<close>, as a recursion
  over the instance ids still to visit. The body never changes the number of replicas,
  so every id of the enumeration stays in range.
\<close>

fun startSelection_loop :: "nat list \<Rightarrow> selector \<Rightarrow> (error + unit) \<times> selector" where
  "startSelection_loop [] s = (Inr (), s)"
| "startSelection_loop (instance_id # rest) s =
     (let replica = self_replicas s ! instance_id
      in if primaryName replica \<noteq> None then startSelection_loop rest s
         else
           case who_is_the_next_primary s instance_id of
             Inl e \<Rightarrow> (Inl e, s)
           | Inr new_primary_name \<Rightarrow>
               let s1 = send_view_change_done_message instance_id new_primary_name
                          (self_viewNo s) s;
                   s2 = s1\<lparr>self_replicas :=
                           (self_replicas s1)[instance_id :=
                              primaryChanged new_primary_name replica]\<rparr>;
                   s3 = s2\<lparr>node_primary_found_calls := node_primary_found_calls s2 + 1\<rparr>;
                   s4 = (if instance_id = 0 then s3\<lparr>previous_master_primary := None\<rparr>
                         else s3)
               in startSelection_loop rest s4)"

definition startSelection :: "selector \<Rightarrow> (error + unit) \<times> selector" where
  "startSelection s = startSelection_loop [0..<length (self_replicas s)] s"

text \<open>
  Modelled from the spec: \<^verbatim>\<open>PrimaryDecider.view_change_started\<close>, the method of the
  base class that \<^verbatim>\<open>super().view_change_started(viewNo)\<close> calls, is not among the
  sources. By the specification the view number never decreases and a new view begins
  with every instance back at no primary; the previous master primary is the node that
  held the master instance's primary role in the view that ends. The call reports
  whether a new view began.
\<close>

definition PrimaryDecider_view_change_started :: "nat \<Rightarrow> selector \<Rightarrow> bool \<times> selector" where
  "PrimaryDecider_view_change_started viewNo' s =
     (if viewNo' \<le> self_viewNo s then (False, s)
      else (True, s\<lparr>self_viewNo := viewNo',
                     previous_master_primary :=
                       (case self_replicas s of
                          [] \<Rightarrow> None
                        | master # _ \<Rightarrow> map_option getNodeName (primaryName master)),
                     self_replicas := map (\<lambda>r. r\<lparr>primaryName := None\<rparr>) (self_replicas s)\<rparr>))"

text \<open>
  \<^verbatim>\<open>view_change_started\<close>. The base class's method is the parameter \<open>super\<close>; the
  loop of the source gives every key of \<^verbatim>\<open>_view_change_done\<close> the empty dictionary.
\<close>

definition view_change_started ::
  "(nat \<Rightarrow> selector \<Rightarrow> bool \<times> selector) \<Rightarrow> nat \<Rightarrow> selector \<Rightarrow> selector" where
  "view_change_started super viewNo' s =
     (case super viewNo' s of
        (True, s1) \<Rightarrow>
          s1\<lparr>view_change_done := map (\<lambda>(i, d). (i, [])) (view_change_done s1)\<rparr>
      | (False, s1) \<Rightarrow> s1)"

text \<open>
  \<^verbatim>\<open>get_msgs_for_lagged_nodes\<close>: the loop over the items of \<^verbatim>\<open>_view_change_done\<close>,
  in the dictionary's order.
\<close>

fun lagged_loop :: "selector \<Rightarrow> vote_ledger \<Rightarrow> ViewChangeDone list" where
  "lagged_loop s [] = []"
| "lagged_loop s ((instance_id, replica_messages) # rest) =
     (let own_name = generateName (self_name s) instance_id
      in case map_of replica_messages own_name of
           None \<Rightarrow> lagged_loop s rest
         | Some (new_primary_replica_name, ledger_info) \<Rightarrow>
             \<lparr>name = new_primary_replica_name, instId = instance_id,
              viewNo = self_viewNo s, ledgerInfo = ledger_info\<rparr> # lagged_loop s rest)"

definition get_msgs_for_lagged_nodes :: "selector \<Rightarrow> ViewChangeDone list" where
  "get_msgs_for_lagged_nodes s = lagged_loop s (view_change_done s)"

text \<open>
  A Python dictionary has each key once. On association lists this is an invariant that
  the empty ledger has and every method keeps: the instances of the ledger are distinct,
  and so are the voters of each instance.
\<close>

definition ledger_wf :: "vote_ledger \<Rightarrow> bool" where
  "ledger_wf vcd =
     (distinct (map fst vcd) \<and> list_all (\<lambda>(i, d). distinct (map fst d)) vcd)"

section \<open>A concrete pool\<close>

text \<open>
  The end-to-end scenario of the specification: four nodes, \<open>f = 1\<close> (quorum three),
  the view has advanced from 0 to 1, two instances, none of them with a primary yet.
  The master primary of view 0 was the node of rank 0. Every vote of the scenario
  carries the same ledger info.
\<close>

definition four_nodes :: "nat \<Rightarrow> node_name" where
  "four_nodes rank =
     (if rank = 0 then ''Alpha'' else if rank = 1 then ''Beta''
      else if rank = 2 then ''Gamma'' else ''Delta'')"

definition scenario_ledger_info :: ledger_info where
  "scenario_ledger_info = [(0, 5, ''root'')]"

definition scenario :: selector where
  "scenario =
     \<lparr>self_name = ''Alpha'', self_f = 1, self_viewNo = 1,
      self_replicas = [\<lparr>primaryName = None\<rparr>, \<lparr>primaryName = None\<rparr>],
      previous_master_primary = Some ''Alpha'', view_change_done = [],
      self_ledger_info = scenario_ledger_info, node_totalNodes = 4,
      node_get_name_by_rank = four_nodes, node_primary_found_calls = 0, sent = []\<rparr>"

definition vote :: "node_name \<Rightarrow> nat \<Rightarrow> nat \<Rightarrow> ViewChangeDone" where
  "vote primary_node instance_id view_no =
     \<lparr>name = generateName primary_node instance_id, instId = instance_id,
      viewNo = view_no, ledgerInfo = scenario_ledger_info\<rparr>"

text \<open>The scenario with a given vote ledger.\<close>

definition scenario_with :: "vote_ledger \<Rightarrow> selector" where
  "scenario_with vcd = scenario\<lparr>view_change_done := vcd\<rparr>"

text \<open>
  View 1 once it is settled: both replicas have their expected primary, the previous
  master primary has been cleared, and three nodes have voted for Beta's replica on the
  master instance.
\<close>

definition scenario_decided :: selector where
  "scenario_decided =
     scenario
       \<lparr>self_replicas := [\<lparr>primaryName = Some (generateName ''Beta'' 0)\<rparr>,
                         \<lparr>primaryName = Some (generateName ''Gamma'' 1)\<rparr>],
        previous_master_primary := None,
        view_change_done :=
          [(0, [(generateName ''Beta'' 0, (generateName ''Beta'' 0, scenario_ledger_info)),
                (generateName ''Gamma'' 0, (generateName ''Beta'' 0, scenario_ledger_info)),
                (generateName ''Delta'' 0, (generateName ''Beta'' 0, scenario_ledger_info))])]\<rparr>"

text \<open>The entry of the ledger that a vote of the scenario leaves for its sender.\<close>

definition entry :: "node_name \<Rightarrow> node_name \<Rightarrow> nat \<Rightarrow> replica_name \<times> vote_data" where
  "entry sender primary_node instance_id =
     (generateName sender instance_id,
      (generateName primary_node instance_id, scenario_ledger_info))"

section \<open>Dictionaries and the most common element\<close>

lemma update_fresh: "map_of d k = None \<Longrightarrow> AList.update k v d = d @ [(k, v)]"
  by (induction d) (auto split: if_splits)

lemma declarations_of_update:
  "declarations_of (AList.update i d vcd) j = (if j = i then d else declarations_of vcd j)"
  by (simp add: declarations_of_def update_conv')

lemma fold_best:
  "fold (\<lambda>y best. if c best < c y then y else best) ys b \<in> insert b (set ys) \<and>
   c b \<le> c (fold (\<lambda>y best. if c best < (c y :: nat) then y else best) ys b) \<and>
   (\<forall>y \<in> set ys. c y \<le> c (fold (\<lambda>y best. if c best < c y then y else best) ys b))"
proof (induction ys arbitrary: b)
  case Nil
  then show ?case by simp
next
  case (Cons a ys)
  let ?b' = "if c b < c a then a else b"
  from Cons.IH [of ?b'] show ?case
    by (auto split: if_splits intro: le_trans less_imp_le)
qed

text \<open>The model of \<^verbatim>\<open>mostCommonElement\<close> returns an element of maximal count.\<close>

lemma mostCommonElement_most_frequent:
  assumes "mostCommonElement xs = Inr x"
  shows "x \<in> set xs" and "count_list xs y \<le> count_list xs x"
proof -
  obtain a as where xs: "xs = a # as"
    using assms by (cases xs) (auto simp: mostCommonElement_def)
  let ?c = "count_list xs"
  have x: "x = fold (\<lambda>y best. if ?c best < ?c y then y else best) xs a"
    using assms by (simp add: mostCommonElement_def xs)
  from fold_best [of ?c xs a] show "x \<in> set xs"
    unfolding x [symmetric] by (auto simp: xs)
  show "count_list xs y \<le> count_list xs x"
  proof (cases "y \<in> set xs")
    case True
    with fold_best [of ?c xs a] show ?thesis unfolding x [symmetric] by blast
  next
    case False
    then show ?thesis by (simp add: count_list_0_iff)
  qed
qed

lemma mostCommonElement_nonempty: "xs \<noteq> [] \<Longrightarrow> \<exists>x. mostCommonElement xs = Inr x"
  by (cases xs) (auto simp: mostCommonElement_def)

section \<open>The vote ledger after \<^verbatim>\<open>_track_view_change_done\<close>\<close>

lemma track_view_change_done_eq:
  "track_view_change_done i sn np li s =
     (if map_of (declarations_of (view_change_done s) i) sn \<noteq> None then (False, s)
      else (True, s\<lparr>view_change_done :=
              AList.update i (declarations_of (view_change_done s) i @ [(sn, (np, li))])
                (view_change_done s)\<rparr>))"
proof (cases "map_of (view_change_done s) i")
  case None
  then have "declarations_of (view_change_done s) i = []"
    by (simp add: declarations_of_def)
  with None show ?thesis
    by (simp add: track_view_change_done_def Let_def declarations_of_update)
next
  case (Some d)
  then have d: "declarations_of (view_change_done s) i = d"
    by (simp add: declarations_of_def)
  show ?thesis
  proof (cases "map_of d sn")
    case None
    with Some d show ?thesis
      by (simp add: track_view_change_done_def Let_def update_fresh [OF None])
  next
    case (Some v)
    with \<open>map_of (view_change_done s) i = Some d\<close> d show ?thesis
      by (simp add: track_view_change_done_def Let_def)
  qed
qed

lemma ledger_wf_declarations:
  "ledger_wf vcd \<Longrightarrow> distinct (map fst (declarations_of vcd i))"
proof (cases "map_of vcd i")
  case None
  then show ?thesis by (simp add: declarations_of_def)
next
  case (Some d)
  assume "ledger_wf vcd"
  moreover from Some have "(i, d) \<in> set vcd" by (rule map_of_SomeD)
  ultimately have "distinct (map fst d)"
    by (auto simp: ledger_wf_def list_all_iff)
  with Some show ?thesis by (simp add: declarations_of_def)
qed

lemma set_update_subset: "set (AList.update k v al) \<subseteq> insert (k, v) (set al)"
  by (induction al) auto

lemma ledger_wf_update:
  assumes "ledger_wf vcd" and "distinct (map fst d)"
  shows "ledger_wf (AList.update i d vcd)"
  using assms set_update_subset [of i d vcd]
  by (auto simp: ledger_wf_def list_all_iff distinct_update)

lemma ledger_wf_record:
  assumes "ledger_wf vcd" and "map_of (declarations_of vcd i) k = None"
  shows "ledger_wf (AList.update i (declarations_of vcd i @ [(k, v)]) vcd)"
proof -
  have "k \<notin> fst ` set (declarations_of vcd i)"
    using assms(2) by (simp add: map_of_eq_None_iff)
  with ledger_wf_declarations [OF assms(1), of i]
  have "distinct (map fst (declarations_of vcd i @ [(k, v)]))" by simp
  with assms(1) show ?thesis by (rule ledger_wf_update)
qed

section \<open>Unfolding \<^verbatim>\<open>_processViewChangeDoneMessage\<close>\<close>

lemma process_unfold:
  "processViewChangeDoneMessage s msg sender =
     (if viewNo msg \<noteq> self_viewNo s then (Inr False, s)
      else if instId msg = 0 \<and> Some (getNodeName (name msg)) = previous_master_primary s
      then (Inr False, s)
      else if map_of (declarations_of (view_change_done s) (instId msg))
                (generateName sender (instId msg)) \<noteq> None
      then (Inr False, s)
      else
        let s1 = s\<lparr>view_change_done :=
                    AList.update (instId msg)
                      (declarations_of (view_change_done s) (instId msg) @
                         [(generateName sender (instId msg), (name msg, ledgerInfo msg))])
                      (view_change_done s)\<rparr>
        in if \<not> instId msg < length (self_replicas s) then (Inl IndexError, s1)
           else if hasPrimary (self_replicas s ! instId msg) then (Inr False, s1)
           else if \<not> hasViewChangeQuorum s1 (instId msg) then (Inr False, s1)
           else
             (case has_view_change_from_primary s1 (instId msg) of
                Inl e \<Rightarrow> (Inl e, s1)
              | Inr False \<Rightarrow> (Inr False, s1)
              | Inr True \<Rightarrow>
                  (case has_sufficient_same_view_change_done_messages s1 (instId msg) of
                     Inl e \<Rightarrow> (Inl e, s1)
                   | Inr None \<Rightarrow> (Inr False, s1)
                   | Inr (Some (new_primary, ledger_info')) \<Rightarrow>
                       (verify_primary_selection s1 (instId msg) new_primary ledger_info', s1))))"
  by (simp add: processViewChangeDoneMessage_def Let_def track_view_change_done_eq
        is_master_instance_def)

lemma process_stale:
  "viewNo msg \<noteq> self_viewNo s \<Longrightarrow> processViewChangeDoneMessage s msg sender = (Inr False, s)"
  by (simp add: process_unfold)

lemma process_previous_master:
  "instId msg = 0 \<Longrightarrow> Some (getNodeName (name msg)) = previous_master_primary s \<Longrightarrow>
   processViewChangeDoneMessage s msg sender = (Inr False, s)"
  by (simp add: process_unfold)

lemma process_duplicate:
  "map_of (declarations_of (view_change_done s) (instId msg))
     (generateName sender (instId msg)) \<noteq> None \<Longrightarrow>
   processViewChangeDoneMessage s msg sender = (Inr False, s)"
  by (simp add: process_unfold)

lemma process_recorded:
  assumes "viewNo msg = self_viewNo s"
    and "\<not> (instId msg = 0 \<and> Some (getNodeName (name msg)) = previous_master_primary s)"
    and "map_of (declarations_of (view_change_done s) (instId msg))
           (generateName sender (instId msg)) = None"
  shows "snd (processViewChangeDoneMessage s msg sender) =
     s\<lparr>view_change_done :=
              AList.update (instId msg)
                (declarations_of (view_change_done s) (instId msg) @
                   [(generateName sender (instId msg), (name msg, ledgerInfo msg))])
                (view_change_done s)\<rparr>"
  using assms
  by (auto simp: process_unfold Let_def split: sum.split bool.split option.split)

lemma process_no_nodes:
  "node_totalNodes s = 0 \<Longrightarrow> fst (processViewChangeDoneMessage s msg sender) \<noteq> Inr True"
  by (simp add: process_unfold Let_def has_view_change_from_primary_def
        who_is_the_next_primary_def)

lemma process_no_replica:
  "\<not> instId msg < length (self_replicas s) \<Longrightarrow>
   fst (processViewChangeDoneMessage s msg sender) \<noteq> Inr True"
  by (simp add: process_unfold Let_def)

lemma process_has_primary:
  "instId msg < length (self_replicas s) \<Longrightarrow> hasPrimary (self_replicas s ! instId msg) \<Longrightarrow>
   fst (processViewChangeDoneMessage s msg sender) = Inr False"
  by (simp add: process_unfold Let_def)

text \<open>
  The checks that follow the recording, read on the ledger \<open>D\<close> of the instance with the
  new vote in it.
\<close>

lemma recorded_checks:
  assumes nodes: "0 < node_totalNodes s"
    and e: "e = generateName (node_get_name_by_rank s
                  ((self_viewNo s + i) mod node_totalNodes s)) i"
    and q: "q = get_strong_quorum (self_f s)"
    and s1: "s1 = s\<lparr>view_change_done := AList.update i D (view_change_done s)\<rparr>"
  shows "hasViewChangeQuorum s1 i = (q \<le> length D)"
    and "who_is_the_next_primary s1 i = Inr e"
    and "has_view_change_from_primary s1 i = Inr (map_of D e \<noteq> None)"
    and "verify_primary_selection s1 i p li = Inr (p = e)"
proof -
  have decl: "declarations_of (view_change_done s1) i = D"
    by (simp add: s1 declarations_of_update)
  show "hasViewChangeQuorum s1 i = (q \<le> length D)"
    unfolding hasViewChangeQuorum_def Let_def decl by (auto simp: s1 q)
  show who: "who_is_the_next_primary s1 i = Inr e"
    using nodes by (simp add: who_is_the_next_primary_def s1 e)
  show "has_view_change_from_primary s1 i = Inr (map_of D e \<noteq> None)"
    unfolding has_view_change_from_primary_def Let_def decl who by simp
  show "verify_primary_selection s1 i p li = Inr (p = e)"
    unfolding verify_primary_selection_def who by simp
qed

lemma recorded_sufficient:
  assumes q: "q = get_strong_quorum (self_f s)"
    and s1: "s1 = s\<lparr>view_change_done := AList.update i D (view_change_done s)\<rparr>"
    and mce: "mostCommonElement (map snd D) = Inr (p, li)"
  shows "has_sufficient_same_view_change_done_messages s1 i =
           Inr (if q \<le> count_list (map snd D) (p, li) then Some (p, li) else None)"
proof -
  have look: "map_of (view_change_done s1) i = Some D"
    by (simp add: s1 update_conv')
  have f: "self_f s1 = self_f s" by (simp add: s1)
  show ?thesis
    unfolding has_sufficient_same_view_change_done_messages_def look f q [symmetric]
    by (simp add: mce)
qed

lemma process_after_record:
  assumes view: "viewNo msg = self_viewNo s"
    and flap: "\<not> (instId msg = 0 \<and> Some (getNodeName (name msg)) = previous_master_primary s)"
    and fresh: "map_of (declarations_of (view_change_done s) (instId msg))
                  (generateName sender (instId msg)) = None"
    and inst: "instId msg < length (self_replicas s)"
    and undecided: "\<not> hasPrimary (self_replicas s ! instId msg)"
    and D: "D = declarations_of (view_change_done s) (instId msg) @
                  [(generateName sender (instId msg), (name msg, ledgerInfo msg))]"
    and s1: "s1 = s\<lparr>view_change_done := AList.update (instId msg) D (view_change_done s)\<rparr>"
  shows "processViewChangeDoneMessage s msg sender =
          (if \<not> hasViewChangeQuorum s1 (instId msg) then (Inr False, s1)
           else
             (case has_view_change_from_primary s1 (instId msg) of
                Inl e \<Rightarrow> (Inl e, s1)
              | Inr False \<Rightarrow> (Inr False, s1)
              | Inr True \<Rightarrow>
                  (case has_sufficient_same_view_change_done_messages s1 (instId msg) of
                     Inl e \<Rightarrow> (Inl e, s1)
                   | Inr None \<Rightarrow> (Inr False, s1)
                   | Inr (Some (new_primary, ledger_info')) \<Rightarrow>
                       (verify_primary_selection s1 (instId msg) new_primary ledger_info', s1))))"
proof -
  have c1: "\<not> viewNo msg \<noteq> self_viewNo s" using view by simp
  have c3: "\<not> map_of (declarations_of (view_change_done s) (instId msg))
                (generateName sender (instId msg)) \<noteq> None" using fresh by simp
  have c4: "\<not> \<not> instId msg < length (self_replicas s)" using inst by simp
  show ?thesis
    unfolding process_unfold [of s msg sender] Let_def if_not_P [OF c1] if_not_P [OF flap]
      if_not_P [OF c3] if_not_P [OF c4] if_not_P [OF undecided] s1 D ..
qed

text \<open>
  The returned value of a call that records its vote, for an instance that has a replica
  without primary, in a pool with nodes.
\<close>

lemma process_decide:
  assumes view: "viewNo msg = self_viewNo s"
    and flap: "\<not> (instId msg = 0 \<and> Some (getNodeName (name msg)) = previous_master_primary s)"
    and fresh: "map_of (declarations_of (view_change_done s) (instId msg))
                  (generateName sender (instId msg)) = None"
    and inst: "instId msg < length (self_replicas s)"
    and undecided: "\<not> hasPrimary (self_replicas s ! instId msg)"
    and nodes: "0 < node_totalNodes s"
    and D: "D = declarations_of (view_change_done s) (instId msg) @
                  [(generateName sender (instId msg), (name msg, ledgerInfo msg))]"
    and e: "e = generateName (node_get_name_by_rank s
                  ((self_viewNo s + instId msg) mod node_totalNodes s)) (instId msg)"
    and q: "q = get_strong_quorum (self_f s)"
  shows "fst (processViewChangeDoneMessage s msg sender) =
     Inr (q \<le> length D \<and> map_of D e \<noteq> None \<and>
          (case mostCommonElement (map snd D) of
             Inl err \<Rightarrow> False
           | Inr (p, li) \<Rightarrow> q \<le> count_list (map snd D) (p, li) \<and> p = e))"
proof -
  define s1 where "s1 = s\<lparr>view_change_done := AList.update (instId msg) D (view_change_done s)\<rparr>"
  note checks = recorded_checks [OF nodes e q s1_def]
  have "map snd D \<noteq> []" by (simp add: D)
  then have "\<exists>x. mostCommonElement (map snd D) = Inr x"
    by (rule mostCommonElement_nonempty)
  then obtain x where x: "mostCommonElement (map snd D) = Inr x" ..
  obtain p li where mce: "mostCommonElement (map snd D) = Inr (p, li)"
    using x by (cases x) simp
  note suff = recorded_sufficient [OF q s1_def mce]
  show ?thesis
    unfolding process_after_record [OF view flap fresh inst undecided D s1_def]
      checks(1) checks(3) suff
    by (cases "map_of D e"; cases "q \<le> count_list (map snd D) (p, li)";
        simp add: mce checks(4))
qed

lemma process_frame:
  "snd (processViewChangeDoneMessage s msg sender) =
     s\<lparr>view_change_done := view_change_done (snd (processViewChangeDoneMessage s msg sender))\<rparr>"
  by (simp add: process_unfold Let_def split: sum.split bool.split option.split)

lemma process_ledger_wf:
  assumes "ledger_wf (view_change_done s)"
  shows "ledger_wf (view_change_done (snd (processViewChangeDoneMessage s msg sender)))"
proof (cases "viewNo msg = self_viewNo s \<and>
    \<not> (instId msg = 0 \<and> Some (getNodeName (name msg)) = previous_master_primary s) \<and>
    map_of (declarations_of (view_change_done s) (instId msg))
      (generateName sender (instId msg)) = None")
  case True
  then show ?thesis
    using assms by (simp add: process_recorded ledger_wf_record)
next
  case False
  then have "processViewChangeDoneMessage s msg sender = (Inr False, s)"
    by (auto simp: process_unfold)
  then show ?thesis using assms by simp
qed

lemma map_of_snoc:
  "map_of (d @ [(k, v)]) k' =
     (case map_of d k' of None \<Rightarrow> (if k' = k then Some v else None) | Some x \<Rightarrow> Some x)"
  by (simp add: map_add_def split: option.split)

lemma process_declarations:
  assumes "viewNo msg = self_viewNo s"
    and "\<not> (instId msg = 0 \<and> Some (getNodeName (name msg)) = previous_master_primary s)"
    and "map_of (declarations_of (view_change_done s) (instId msg))
           (generateName sender (instId msg)) = None"
  shows "declarations_of (view_change_done (snd (processViewChangeDoneMessage s msg sender))) j =
     (if j = instId msg
      then declarations_of (view_change_done s) (instId msg) @
             [(generateName sender (instId msg), (name msg, ledgerInfo msg))]
      else declarations_of (view_change_done s) j)"
  unfolding process_recorded [OF assms] by (simp add: declarations_of_update)

lemma process_rejected_early:
  assumes "\<not> (viewNo msg = self_viewNo s \<and>
      \<not> (instId msg = 0 \<and> Some (getNodeName (name msg)) = previous_master_primary s) \<and>
      map_of (declarations_of (view_change_done s) (instId msg))
        (generateName sender (instId msg)) = None)"
  shows "processViewChangeDoneMessage s msg sender = (Inr False, s)"
  using assms by (auto simp: process_unfold)

section \<open>The loop of \<^verbatim>\<open>_startSelection\<close>\<close>

lemma send_view_change_done_message_fields:
  "self_replicas (send_view_change_done_message i np v s) = self_replicas s"
  "node_totalNodes (send_view_change_done_message i np v s) = node_totalNodes s"
  "node_primary_found_calls (send_view_change_done_message i np v s) = node_primary_found_calls s"
  "previous_master_primary (send_view_change_done_message i np v s) = previous_master_primary s"
  "self_viewNo (send_view_change_done_message i np v s) = self_viewNo s"
  "node_get_name_by_rank (send_view_change_done_message i np v s) = node_get_name_by_rank s"
  "self_name (send_view_change_done_message i np v s) = self_name s"
  by (simp_all add: send_view_change_done_message_def Let_def track_view_change_done_eq)

lemma startSelection_loop_skip:
  "primaryName (self_replicas s ! i) \<noteq> None \<Longrightarrow>
   startSelection_loop (i # rest) s = startSelection_loop rest s"
  by (simp add: Let_def)

lemma startSelection_loop_step:
  assumes "primaryName (self_replicas s ! i) = None" and "0 < node_totalNodes s"
    and "e = generateName (node_get_name_by_rank s
                 ((self_viewNo s + i) mod node_totalNodes s)) i"
    and "s1 = send_view_change_done_message i e (self_viewNo s) s"
    and "s3 = s1\<lparr>self_replicas := (self_replicas s1)[i := primaryChanged e (self_replicas s ! i)],
                  node_primary_found_calls := node_primary_found_calls s1 + 1\<rparr>"
  shows "startSelection_loop (i # rest) s =
           startSelection_loop rest
             (if i = 0 then s3\<lparr>previous_master_primary := None\<rparr> else s3)"
  using assms by (simp add: Let_def who_is_the_next_primary_def)

lemma startSelection_loop_calls:
  assumes "distinct is" and "\<forall>i \<in> set is. i < length (self_replicas s)"
    and "0 < node_totalNodes s"
  shows "fst (startSelection_loop is s) = Inr () \<and>
         node_primary_found_calls (snd (startSelection_loop is s)) =
           node_primary_found_calls s +
           length (filter (\<lambda>i. primaryName (self_replicas s ! i) = None) is)"
  using assms
proof (induction "is" arbitrary: s)
  case Nil
  then show ?case by simp
next
  case (Cons i rest)
  show ?case
  proof (cases "primaryName (self_replicas s ! i) = None")
    case False
    with Cons show ?thesis by (simp add: startSelection_loop_skip del: startSelection_loop.simps)
  next
    case True
    define e where "e = generateName (node_get_name_by_rank s
                 ((self_viewNo s + i) mod node_totalNodes s)) i"
    define s1 where "s1 = send_view_change_done_message i e (self_viewNo s) s"
    define s3 where "s3 = s1\<lparr>self_replicas :=
                              (self_replicas s1)[i := primaryChanged e (self_replicas s ! i)],
                            node_primary_found_calls := node_primary_found_calls s1 + 1\<rparr>"
    define s4 where "s4 = (if i = 0 then s3\<lparr>previous_master_primary := None\<rparr> else s3)"
    have step: "startSelection_loop (i # rest) s = startSelection_loop rest s4"
      unfolding s4_def
      by (rule startSelection_loop_step [OF True Cons.prems(3) e_def s1_def s3_def])
    have reps: "self_replicas s4 = (self_replicas s)[i := primaryChanged e (self_replicas s ! i)]"
      and nodes: "node_totalNodes s4 = node_totalNodes s"
      and calls: "node_primary_found_calls s4 = node_primary_found_calls s + 1"
      by (simp_all add: s4_def s3_def s1_def send_view_change_done_message_fields)
    have "distinct rest" and notin: "i \<notin> set rest" using Cons.prems(1) by simp_all
    moreover have "\<forall>j \<in> set rest. j < length (self_replicas s4)"
      using Cons.prems(2) by (simp add: reps)
    moreover have "0 < node_totalNodes s4" using Cons.prems(3) by (simp add: nodes)
    ultimately have IH: "fst (startSelection_loop rest s4) = Inr () \<and>
         node_primary_found_calls (snd (startSelection_loop rest s4)) =
           node_primary_found_calls s4 +
           length (filter (\<lambda>j. primaryName (self_replicas s4 ! j) = None) rest)"
      by (intro Cons.IH)
    have same: "filter (\<lambda>j. primaryName (self_replicas s4 ! j) = None) rest =
                filter (\<lambda>j. primaryName (self_replicas s ! j) = None) rest"
    proof (rule filter_cong [OF refl])
      fix j assume "j \<in> set rest"
      with notin have "i \<noteq> j" by blast
      then show "(primaryName (self_replicas s4 ! j) = None) =
                 (primaryName (self_replicas s ! j) = None)"
        by (simp add: reps)
    qed
    show ?thesis
      unfolding step using IH True by (simp add: same calls)
  qed
qed

lemma startSelection_loop_select:
  assumes none: "primaryName (self_replicas s ! i) = None" and nodes: "0 < node_totalNodes s"
  shows "\<exists>s4. startSelection_loop (i # rest) s = startSelection_loop rest s4 \<and>
           self_replicas s4 = (self_replicas s)[i :=
              primaryChanged (generateName (node_get_name_by_rank s
                 ((self_viewNo s + i) mod node_totalNodes s)) i) (self_replicas s ! i)] \<and>
           node_totalNodes s4 = node_totalNodes s \<and>
           self_viewNo s4 = self_viewNo s \<and>
           node_get_name_by_rank s4 = node_get_name_by_rank s \<and>
           node_primary_found_calls s4 = node_primary_found_calls s + 1"
proof -
  define e where "e = generateName (node_get_name_by_rank s
                 ((self_viewNo s + i) mod node_totalNodes s)) i"
  define s1 where "s1 = send_view_change_done_message i e (self_viewNo s) s"
  define s3 where "s3 = s1\<lparr>self_replicas :=
                            (self_replicas s1)[i := primaryChanged e (self_replicas s ! i)],
                          node_primary_found_calls := node_primary_found_calls s1 + 1\<rparr>"
  define s4 where "s4 = (if i = 0 then s3\<lparr>previous_master_primary := None\<rparr> else s3)"
  have step: "startSelection_loop (i # rest) s = startSelection_loop rest s4"
    unfolding s4_def
    by (rule startSelection_loop_step [OF none nodes e_def s1_def s3_def])
  have "self_replicas s4 = (self_replicas s)[i := primaryChanged e (self_replicas s ! i)]"
    and "node_totalNodes s4 = node_totalNodes s"
    and "self_viewNo s4 = self_viewNo s"
    and "node_get_name_by_rank s4 = node_get_name_by_rank s"
    and "node_primary_found_calls s4 = node_primary_found_calls s + 1"
    by (simp_all add: s4_def s3_def s1_def send_view_change_done_message_fields)
  with step show ?thesis unfolding e_def by blast
qed

lemma startSelection_loop_replicas:
  assumes "distinct is" and "\<forall>i \<in> set is. i < length (self_replicas s)"
    and "0 < node_totalNodes s"
  shows "length (self_replicas (snd (startSelection_loop is s))) = length (self_replicas s) \<and>
         (\<forall>j < length (self_replicas s).
            primaryName (self_replicas (snd (startSelection_loop is s)) ! j) =
              (if j \<in> set is \<and> primaryName (self_replicas s ! j) = None
               then Some (generateName (node_get_name_by_rank s
                            ((self_viewNo s + j) mod node_totalNodes s)) j)
               else primaryName (self_replicas s ! j)))"
  using assms
proof (induction "is" arbitrary: s)
  case Nil
  then show ?case by simp
next
  case (Cons i rest)
  from Cons.prems have dist: "distinct rest" and notin: "i \<notin> set rest"
    and i: "i < length (self_replicas s)"
    and rest: "\<forall>j \<in> set rest. j < length (self_replicas s)"
    by simp_all
  show ?case
  proof (cases "primaryName (self_replicas s ! i) = None")
    case False
    have "startSelection_loop (i # rest) s = startSelection_loop rest s"
      using False by (rule startSelection_loop_skip)
    with Cons.IH [OF dist rest Cons.prems(3)] False show ?thesis
      by (auto simp del: startSelection_loop.simps)
  next
    case True
    from startSelection_loop_select [OF True Cons.prems(3), of rest]
    obtain s4 where step: "startSelection_loop (i # rest) s = startSelection_loop rest s4"
      and reps: "self_replicas s4 = (self_replicas s)[i :=
              primaryChanged (generateName (node_get_name_by_rank s
                 ((self_viewNo s + i) mod node_totalNodes s)) i) (self_replicas s ! i)]"
      and nodes: "node_totalNodes s4 = node_totalNodes s"
      and view: "self_viewNo s4 = self_viewNo s"
      and rank: "node_get_name_by_rank s4 = node_get_name_by_rank s"
      by blast
    have len: "length (self_replicas s4) = length (self_replicas s)" by (simp add: reps)
    have "\<forall>j \<in> set rest. j < length (self_replicas s4)" using rest by (simp add: len)
    moreover have "0 < node_totalNodes s4" using Cons.prems(3) by (simp add: nodes)
    ultimately have IH:
      "length (self_replicas (snd (startSelection_loop rest s4))) = length (self_replicas s4) \<and>
         (\<forall>j < length (self_replicas s4).
            primaryName (self_replicas (snd (startSelection_loop rest s4)) ! j) =
              (if j \<in> set rest \<and> primaryName (self_replicas s4 ! j) = None
               then Some (generateName (node_get_name_by_rank s4
                            ((self_viewNo s4 + j) mod node_totalNodes s4)) j)
               else primaryName (self_replicas s4 ! j)))"
      using dist by (intro Cons.IH)
    have at_i: "primaryName (self_replicas s4 ! i) =
        Some (generateName (node_get_name_by_rank s ((self_viewNo s + i) mod node_totalNodes s)) i)"
      using i by (simp add: reps primaryChanged_def)
    have other: "self_replicas s4 ! j = self_replicas s ! j" if "j \<noteq> i" for j
      using that by (simp add: reps)
    show ?thesis
      unfolding step
    proof (intro conjI allI impI)
      show "length (self_replicas (snd (startSelection_loop rest s4))) = length (self_replicas s)"
        using IH len by simp
    next
      fix j assume j: "j < length (self_replicas s)"
      with IH len have eq: "primaryName (self_replicas (snd (startSelection_loop rest s4)) ! j) =
              (if j \<in> set rest \<and> primaryName (self_replicas s4 ! j) = None
               then Some (generateName (node_get_name_by_rank s4
                            ((self_viewNo s4 + j) mod node_totalNodes s4)) j)
               else primaryName (self_replicas s4 ! j))"
        by simp
      show "primaryName (self_replicas (snd (startSelection_loop rest s4)) ! j) =
              (if j \<in> set (i # rest) \<and> primaryName (self_replicas s ! j) = None
               then Some (generateName (node_get_name_by_rank s
                            ((self_viewNo s + j) mod node_totalNodes s)) j)
               else primaryName (self_replicas s ! j))"
      proof (cases "j = i")
        case True
        with eq notin at_i \<open>primaryName (self_replicas s ! i) = None\<close> show ?thesis by simp
      next
        case False
        with eq other [OF False] show ?thesis by (simp add: nodes view rank)
      qed
    qed
  qed
qed

lemma length_filter_nth:
  "length (filter (\<lambda>i. P (xs ! i)) [0..<length xs]) = length (filter P xs)"
proof -
  have "filter P xs = filter P (map (\<lambda>i. xs ! i) [0..<length xs])"
    by (simp add: map_nth)
  also have "\<dots> = map (\<lambda>i. xs ! i) (filter (\<lambda>i. P (xs ! i)) [0..<length xs])"
    by (simp add: filter_map comp_def)
  finally show ?thesis by simp
qed

lemma process_primary_found_calls:
  "node_primary_found_calls (snd (processViewChangeDoneMessage s msg sender)) =
     node_primary_found_calls s"
  by (subst process_frame) simp

section \<open>Clearing the ledger and reading it back\<close>

lemma declarations_of_cleared:
  "declarations_of (map (\<lambda>(i, d). (i, [])) vcd) j = []"
  by (induction vcd) (auto simp: declarations_of_def)

lemma cleared_all_empty: "list_all (\<lambda>(i, d). d = []) (map (\<lambda>(i, d). (i, [])) vcd)"
  by (induction vcd) auto

lemma cleared_keys: "map fst (map (\<lambda>(i, d). (i, [])) vcd) = map fst vcd"
  by (induction vcd) auto

lemma view_change_started_new_view:
  "super viewNo' s = (True, s1) \<Longrightarrow>
   view_change_started super viewNo' s =
     s1\<lparr>view_change_done := map (\<lambda>(i, d). (i, [])) (view_change_done s1)\<rparr>"
  by (simp add: view_change_started_def)

lemma lagged_loop_Cons:
  "lagged_loop s ((i, d) # rest) =
     (case map_of d (generateName (self_name s) i) of
        None \<Rightarrow> []
      | Some (np, li) \<Rightarrow>
          [\<lparr>name = np, instId = i, viewNo = self_viewNo s, ledgerInfo = li\<rparr>]) @
     lagged_loop s rest"
  by (simp add: Let_def split: option.split)

lemma lagged_loop_instIds:
  "m \<in> set (lagged_loop s vcd) \<Longrightarrow> instId m \<in> fst ` set vcd"
proof (induction vcd)
  case Nil
  then show ?case by simp
next
  case (Cons p rest)
  obtain i d where p: "p = (i, d)" by (cases p)
  from Cons show ?case
    unfolding p lagged_loop_Cons by (auto split: option.splits)
qed

lemma declarations_of_Cons:
  "declarations_of ((i, d) # rest) j = (if j = i then d else declarations_of rest j)"
  by (simp add: declarations_of_def)

lemma lagged_loop_count:
  "distinct (map fst vcd) \<Longrightarrow>
   length (filter (\<lambda>m. instId m = i) (lagged_loop s vcd)) =
     (if map_of (declarations_of vcd i) (generateName (self_name s) i) \<noteq> None then 1 else 0)"
proof (induction vcd)
  case Nil
  then show ?case by (simp add: declarations_of_def)
next
  case (Cons p rest)
  obtain j d where p: "p = (j, d)" by (cases p)
  from Cons.prems have fresh: "j \<notin> fst ` set rest" and dist: "distinct (map fst rest)"
    by (auto simp: p)
  note IH = Cons.IH [OF dist]
  show ?case
  proof (cases "i = j")
    case True
    have "\<And>m. m \<in> set (lagged_loop s rest) \<Longrightarrow> instId m \<noteq> i"
      using fresh True lagged_loop_instIds [of _ s rest] by blast
    then have none: "filter (\<lambda>m. instId m = i) (lagged_loop s rest) = []"
      by (simp add: filter_empty_conv)
    show ?thesis
      unfolding p lagged_loop_Cons declarations_of_Cons
      using True none by (auto split: option.splits)
  next
    case False
    show ?thesis
      unfolding p lagged_loop_Cons declarations_of_Cons
      using False IH by (auto split: option.splits)
  qed
qed

lemma lagged_loop_content:
  "distinct (map fst vcd) \<Longrightarrow> m \<in> set (lagged_loop s vcd) \<Longrightarrow>
   map_of (declarations_of vcd (instId m)) (generateName (self_name s) (instId m)) =
     Some (name m, ledgerInfo m) \<and> viewNo m = self_viewNo s"
proof (induction vcd)
  case Nil
  then show ?case by simp
next
  case (Cons p rest)
  obtain j d where p: "p = (j, d)" by (cases p)
  from Cons.prems(1) have fresh: "j \<notin> fst ` set rest" and dist: "distinct (map fst rest)"
    by (auto simp: p)
  show ?case
  proof (cases "m \<in> set (lagged_loop s rest)")
    case True
    then have "instId m \<in> fst ` set rest" by (rule lagged_loop_instIds)
    with fresh have ne: "instId m \<noteq> j" by auto
    from Cons.IH [OF dist True] ne show ?thesis
      unfolding p declarations_of_Cons by simp
  next
    case False
    with Cons.prems(2) show ?thesis
      unfolding p lagged_loop_Cons declarations_of_Cons
      by (auto split: option.splits)
  qed
qed

section \<open>The scenario, vote by vote\<close>

text \<open>
  The expected primary of instance 0 in view 1 is the replica of the node of rank 1.
  Three nodes, that node among them, send the same vote: the first two calls return
  false, the third returns true.
\<close>

lemmas scenario_simps =
  scenario_def scenario_with_def vote_def entry_def scenario_ledger_info_def four_nodes_def
  generateName_def declarations_of_def hasPrimary_def hasViewChangeQuorum_def
  get_strong_quorum_def has_view_change_from_primary_def who_is_the_next_primary_def
  has_sufficient_same_view_change_done_messages_def mostCommonElement_def
  verify_primary_selection_def is_master_instance_def Let_def

lemma scenario_first_vote:
  "processViewChangeDoneMessage scenario (vote ''Beta'' 0 1) ''Beta'' =
     (Inr False, scenario_with [(0, [entry ''Beta'' ''Beta'' 0])])"
  by (simp add: process_unfold scenario_simps)

lemma scenario_second_vote:
  "processViewChangeDoneMessage (scenario_with [(0, [entry ''Beta'' ''Beta'' 0])])
     (vote ''Beta'' 0 1) ''Gamma'' =
     (Inr False, scenario_with [(0, [entry ''Beta'' ''Beta'' 0, entry ''Gamma'' ''Beta'' 0])])"
  by (simp add: process_unfold scenario_simps)

lemma scenario_third_vote:
  "processViewChangeDoneMessage
     (scenario_with [(0, [entry ''Beta'' ''Beta'' 0, entry ''Gamma'' ''Beta'' 0])])
     (vote ''Beta'' 0 1) ''Delta'' =
     (Inr True, scenario_with [(0, [entry ''Beta'' ''Beta'' 0, entry ''Gamma'' ''Beta'' 0,
                                    entry ''Delta'' ''Beta'' 0])])"
  by (simp add: process_unfold scenario_simps)

section \<open>Round-robin schedule and stale views\<close>

text \<open>
  C7. When the node table is not empty, the expected primary of an instance is the
  replica name built for that instance from the node name at rank
  \<open>(view_no + instance_id) mod total_nodes\<close>; no exception is raised. The result depends
  only on the view number, the instance id, the number of nodes and the rank table: two
  selectors that agree on these yield the same replica name, whatever the rest of their
  state. The function returns a value only, leaving no state behind.
\<close>

theorem C7_expected_primary_round_robin:
  "(0 < node_totalNodes s \<longrightarrow>
      who_is_the_next_primary s instance_id =
        Inr (generateName
               (node_get_name_by_rank s ((self_viewNo s + instance_id) mod node_totalNodes s))
               instance_id)) \<and>
   (self_viewNo s = self_viewNo s' \<and> node_totalNodes s = node_totalNodes s' \<and>
    node_get_name_by_rank s = node_get_name_by_rank s' \<longrightarrow>
      who_is_the_next_primary s instance_id = who_is_the_next_primary s' instance_id)"
  by (simp add: who_is_the_next_primary_def Let_def)

text \<open>
  In the scenario (view 1, four nodes) the expected primary of instance 1 is the replica
  of the node of rank 2, and a selector with another ledger expects the same one.
\<close>

theorem C7_expected_primary_round_robin_witness:
  "0 < node_totalNodes scenario \<and>
   who_is_the_next_primary scenario 1 = Inr (ReplicaName ''Gamma'' 1) \<and>
   who_is_the_next_primary (scenario_with [(0, [entry ''Beta'' ''Beta'' 0])]) 1 =
     Inr (ReplicaName ''Gamma'' 1)"
  using C7_expected_primary_round_robin
          [of scenario 1 "scenario_with [(0, [entry ''Beta'' ''Beta'' 0])]"]
  by (auto simp: scenario_def scenario_with_def four_nodes_def generateName_def)

text \<open>
  C4. A vote whose view number differs from the selector's current view makes
  \<^verbatim>\<open>_processViewChangeDoneMessage\<close> return false, and the selector, its vote ledger
  included, is after the call what it was before.
\<close>

theorem C4_stale_view_rejected:
  "viewNo msg \<noteq> self_viewNo s \<Longrightarrow>
     processViewChangeDoneMessage s msg sender = (Inr False, s) \<and>
     view_change_done (snd (processViewChangeDoneMessage s msg sender)) = view_change_done s"
  by (simp add: process_stale)

text \<open>A vote of view 0 arrives in view 1, from a node whose vote would complete a quorum.\<close>

theorem C4_stale_view_rejected_witness:
  "viewNo (vote ''Beta'' 0 0) \<noteq>
     self_viewNo (scenario_with [(0, [entry ''Beta'' ''Beta'' 0, entry ''Gamma'' ''Beta'' 0])]) \<and>
   processViewChangeDoneMessage
     (scenario_with [(0, [entry ''Beta'' ''Beta'' 0, entry ''Gamma'' ''Beta'' 0])])
     (vote ''Beta'' 0 0) ''Delta'' =
   (Inr False, scenario_with [(0, [entry ''Beta'' ''Beta'' 0, entry ''Gamma'' ''Beta'' 0])])"
  using C4_stale_view_rejected
          [of "vote ''Beta'' 0 0"
              "scenario_with [(0, [entry ''Beta'' ''Beta'' 0, entry ''Gamma'' ''Beta'' 0])]"
              "''Delta''"]
  by (simp add: vote_def scenario_with_def scenario_def)

section \<open>The decision\<close>

text \<open>
  C1. \<^verbatim>\<open>_processViewChangeDoneMessage\<close> returns true only if, on the ledger \<open>D\<close> of
  the vote's instance as the call leaves it, all of these hold: the number of recorded
  voters is at least \<open>get_strong_quorum f\<close>; the replica that
  \<^verbatim>\<open>_who_is_the_next_primary\<close> designates for the instance and view has a vote in
  \<open>D\<close>; the most common (claimed primary, ledger info) pair of \<open>D\<close> occurs at least
  \<open>get_strong_quorum f\<close> times; and the claimed primary of that pair is the expected
  primary. For an instance that has a replica, in a pool with nodes, the call returns
  false as soon as one of them fails. On a ledger that is a dictionary (every key once)
  the length of \<open>D\<close> is the number of distinct voters.
\<close>

theorem C1_decision_requires_quorum_and_primary:
  "let res = fst (processViewChangeDoneMessage s msg sender);
       s' = snd (processViewChangeDoneMessage s msg sender);
       D = declarations_of (view_change_done s') (instId msg);
       quorum = get_strong_quorum (self_f s');
       expected_primary =
         generateName (node_get_name_by_rank s'
           ((self_viewNo s' + instId msg) mod node_totalNodes s')) (instId msg);
       decided =
         (quorum \<le> length D \<and> map_of D expected_primary \<noteq> None \<and>
          (case mostCommonElement (map snd D) of
             Inl err \<Rightarrow> False
           | Inr (p, li) \<Rightarrow> quorum \<le> count_list (map snd D) (p, li) \<and> p = expected_primary))
   in (res = Inr True \<longrightarrow> decided) \<and>
      (instId msg < length (self_replicas s) \<and> 0 < node_totalNodes s \<and> \<not> decided
         \<longrightarrow> res = Inr False) \<and>
      (ledger_wf (view_change_done s) \<longrightarrow> length D = card (fst ` set D))"
proof -
  define res where "res = fst (processViewChangeDoneMessage s msg sender)"
  define s' where "s' = snd (processViewChangeDoneMessage s msg sender)"
  define D where "D = declarations_of (view_change_done s') (instId msg)"
  define quorum where "quorum = get_strong_quorum (self_f s)"
  define expected where "expected =
     generateName (node_get_name_by_rank s
       ((self_viewNo s + instId msg) mod node_totalNodes s)) (instId msg)"
  define decided where "decided =
     (quorum \<le> length D \<and> map_of D expected \<noteq> None \<and>
      (case mostCommonElement (map snd D) of
         Inl err \<Rightarrow> False
       | Inr (p, li) \<Rightarrow> quorum \<le> count_list (map snd D) (p, li) \<and> p = expected))"
  have frame: "s' = s\<lparr>view_change_done := view_change_done s'\<rparr>"
    unfolding s'_def by (rule process_frame)
  have f: "self_f s' = self_f s" "self_viewNo s' = self_viewNo s"
    "node_totalNodes s' = node_totalNodes s" "node_get_name_by_rank s' = node_get_name_by_rank s"
    by (subst frame, simp)+
  have wf: "length D = card (fst ` set D)" if "ledger_wf (view_change_done s)"
  proof -
    have "ledger_wf (view_change_done s')"
      unfolding s'_def using that by (rule process_ledger_wf)
    then have "distinct (map fst D)"
      unfolding D_def by (rule ledger_wf_declarations)
    then have "card (set (map fst D)) = length (map fst D)" by (rule distinct_card)
    then show ?thesis by simp
  qed
  have main: "(res = Inr True \<longrightarrow> decided) \<and>
      (instId msg < length (self_replicas s) \<and> 0 < node_totalNodes s \<and> \<not> decided
         \<longrightarrow> res = Inr False)"
  proof (cases "viewNo msg = self_viewNo s \<and>
      \<not> (instId msg = 0 \<and> Some (getNodeName (name msg)) = previous_master_primary s) \<and>
      map_of (declarations_of (view_change_done s) (instId msg))
        (generateName sender (instId msg)) = None")
    case False
    then have "processViewChangeDoneMessage s msg sender = (Inr False, s)"
      by (auto simp: process_unfold)
    then show ?thesis by (simp add: res_def)
  next
    case True
    then have view: "viewNo msg = self_viewNo s"
      and flap: "\<not> (instId msg = 0 \<and> Some (getNodeName (name msg)) = previous_master_primary s)"
      and fresh: "map_of (declarations_of (view_change_done s) (instId msg))
                    (generateName sender (instId msg)) = None"
      by blast+
    have D: "D = declarations_of (view_change_done s) (instId msg) @
                  [(generateName sender (instId msg), (name msg, ledgerInfo msg))]"
      unfolding D_def s'_def process_recorded [OF view flap fresh]
      by (simp add: declarations_of_update)
    show ?thesis
    proof (cases "instId msg < length (self_replicas s) \<and> 0 < node_totalNodes s")
      case False
      then have "res \<noteq> Inr True"
        unfolding res_def using process_no_replica [of msg s sender] process_no_nodes [of s msg sender]
        by blast
      with False show ?thesis by blast
    next
      case wfs: True
      show ?thesis
      proof (cases "hasPrimary (self_replicas s ! instId msg)")
        case True
        with wfs have "res = Inr False"
          unfolding res_def by (simp add: process_has_primary)
        then show ?thesis by simp
      next
        case False
        from wfs have inst: "instId msg < length (self_replicas s)"
          and nodes: "0 < node_totalNodes s" by blast+
        have "res = Inr decided"
          unfolding res_def decided_def
          by (rule process_decide [OF view flap fresh inst False nodes D expected_def quorum_def])
        then show ?thesis by simp
      qed
    qed
  qed
  show ?thesis
    unfolding Let_def f [unfolded s'_def]
    using main wf
    unfolding res_def s'_def D_def quorum_def expected_def decided_def
    by blast
qed

text \<open>
  The scenario: the third matching vote is decided with all four conditions true; the
  second is not, for want of a quorum of voters.
\<close>

theorem C1_decision_requires_quorum_and_primary_witness:
  "fst (processViewChangeDoneMessage
          (scenario_with [(0, [entry ''Beta'' ''Beta'' 0, entry ''Gamma'' ''Beta'' 0])])
          (vote ''Beta'' 0 1) ''Delta'') = Inr True \<and>
   get_strong_quorum 1 \<le>
     length [entry ''Beta'' ''Beta'' 0, entry ''Gamma'' ''Beta'' 0, entry ''Delta'' ''Beta'' 0] \<and>
   map_of [entry ''Beta'' ''Beta'' 0, entry ''Gamma'' ''Beta'' 0, entry ''Delta'' ''Beta'' 0]
     (ReplicaName ''Beta'' 0) \<noteq> None \<and>
   mostCommonElement
     (map snd [entry ''Beta'' ''Beta'' 0, entry ''Gamma'' ''Beta'' 0, entry ''Delta'' ''Beta'' 0]) =
     Inr (ReplicaName ''Beta'' 0, scenario_ledger_info) \<and>
   instId (vote ''Beta'' 0 1) < length (self_replicas scenario) \<and>
   0 < node_totalNodes scenario \<and>
   \<not> get_strong_quorum 1 \<le> length [entry ''Beta'' ''Beta'' 0, entry ''Gamma'' ''Beta'' 0] \<and>
   fst (processViewChangeDoneMessage (scenario_with [(0, [entry ''Beta'' ''Beta'' 0])])
          (vote ''Beta'' 0 1) ''Gamma'') = Inr False \<and>
   ledger_wf [(0, [entry ''Beta'' ''Beta'' 0])] \<and>
   length [entry ''Beta'' ''Beta'' 0, entry ''Gamma'' ''Beta'' 0] =
     card (fst ` set [entry ''Beta'' ''Beta'' 0, entry ''Gamma'' ''Beta'' 0])"
  using C1_decision_requires_quorum_and_primary
          [of "scenario_with [(0, [entry ''Beta'' ''Beta'' 0, entry ''Gamma'' ''Beta'' 0])]"
              "vote ''Beta'' 0 1" "''Delta''"]
        C1_decision_requires_quorum_and_primary
          [of "scenario_with [(0, [entry ''Beta'' ''Beta'' 0])]" "vote ''Beta'' 0 1" "''Gamma''"]
  by (simp add: process_unfold scenario_simps ledger_wf_def)

section \<open>The previous master primary\<close>

text \<open>
  C2. A vote for the master instance whose claimed primary is a replica of the node
  stored in \<^verbatim>\<open>previous_master_primary\<close> is rejected: the call returns false and the
  selector is unchanged, so the vote is not recorded, whatever the ledger holds. The
  rule is for the master instance only: on any other instance a vote of the current
  view from a sender not yet recorded is stored, the same claimed node included.
\<close>

theorem C2_previous_master_primary_rejected:
  "(is_master_instance (instId msg) \<and>
    Some (getNodeName (name msg)) = previous_master_primary s \<longrightarrow>
      processViewChangeDoneMessage s msg sender = (Inr False, s)) \<and>
   (\<not> is_master_instance (instId msg) \<and> viewNo msg = self_viewNo s \<and>
    map_of (declarations_of (view_change_done s) (instId msg))
      (generateName sender (instId msg)) = None \<longrightarrow>
      map_of (declarations_of (view_change_done (snd (processViewChangeDoneMessage s msg sender)))
                (instId msg))
        (generateName sender (instId msg)) = Some (name msg, ledgerInfo msg))"
proof (intro conjI impI)
  assume "is_master_instance (instId msg) \<and>
    Some (getNodeName (name msg)) = previous_master_primary s"
  then show "processViewChangeDoneMessage s msg sender = (Inr False, s)"
    by (simp add: is_master_instance_def process_previous_master)
next
  assume a: "\<not> is_master_instance (instId msg) \<and> viewNo msg = self_viewNo s \<and>
    map_of (declarations_of (view_change_done s) (instId msg))
      (generateName sender (instId msg)) = None"
  then have "\<not> (instId msg = 0 \<and> Some (getNodeName (name msg)) = previous_master_primary s)"
    by (simp add: is_master_instance_def)
  with a show "map_of (declarations_of
        (view_change_done (snd (processViewChangeDoneMessage s msg sender))) (instId msg))
      (generateName sender (instId msg)) = Some (name msg, ledgerInfo msg)"
    by (simp add: process_declarations map_of_snoc del: map_of_append)
qed

text \<open>
  In the scenario the previous master primary is Alpha: a vote for Alpha's replica is
  rejected on instance 0 and recorded on instance 1.
\<close>

theorem C2_previous_master_primary_rejected_witness:
  "is_master_instance (instId (vote ''Alpha'' 0 1)) \<and>
   Some (getNodeName (name (vote ''Alpha'' 0 1))) = previous_master_primary scenario \<and>
   processViewChangeDoneMessage scenario (vote ''Alpha'' 0 1) ''Beta'' = (Inr False, scenario) \<and>
   \<not> is_master_instance (instId (vote ''Alpha'' 1 1)) \<and>
   Some (getNodeName (name (vote ''Alpha'' 1 1))) = previous_master_primary scenario \<and>
   map_of (declarations_of
             (view_change_done
                (snd (processViewChangeDoneMessage scenario (vote ''Alpha'' 1 1) ''Beta''))) 1)
     (ReplicaName ''Beta'' 1) = Some (ReplicaName ''Alpha'' 1, scenario_ledger_info)"
  using C2_previous_master_primary_rejected [of "vote ''Alpha'' 0 1" scenario "''Beta''"]
        C2_previous_master_primary_rejected [of "vote ''Alpha'' 1 1" scenario "''Beta''"]
  by (simp add: scenario_simps)

section \<open>Duplicates\<close>

text \<open>
  C5. Once a sender has a vote recorded for an instance, every further call for that
  sender and instance returns false and leaves the selector unchanged, whatever the
  message carries. And no call of \<^verbatim>\<open>_processViewChangeDoneMessage\<close>, from any sender
  with any message, changes an entry that is recorded: the voter still maps to the same
  (claimed primary, ledger info) afterwards.
\<close>

theorem C5_duplicate_vote_rejected:
  "(map_of (declarations_of (view_change_done s) (instId msg))
      (generateName sender (instId msg)) \<noteq> None \<longrightarrow>
      processViewChangeDoneMessage s msg sender = (Inr False, s)) \<and>
   (map_of (declarations_of (view_change_done s) i) voter = Some d \<longrightarrow>
      map_of (declarations_of
                (view_change_done (snd (processViewChangeDoneMessage s msg' sender'))) i)
        voter = Some d)"
proof (intro conjI impI)
  assume "map_of (declarations_of (view_change_done s) (instId msg))
      (generateName sender (instId msg)) \<noteq> None"
  then show "processViewChangeDoneMessage s msg sender = (Inr False, s)"
    by (rule process_duplicate)
next
  assume d: "map_of (declarations_of (view_change_done s) i) voter = Some d"
  show "map_of (declarations_of
                (view_change_done (snd (processViewChangeDoneMessage s msg' sender'))) i)
        voter = Some d"
  proof (cases "viewNo msg' = self_viewNo s \<and>
      \<not> (instId msg' = 0 \<and> Some (getNodeName (name msg')) = previous_master_primary s) \<and>
      map_of (declarations_of (view_change_done s) (instId msg'))
        (generateName sender' (instId msg')) = None")
    case True
    then show ?thesis using d
      by (auto simp: process_declarations map_of_snoc simp del: map_of_append)
  next
    case False
    then show ?thesis using d by (simp add: process_rejected_early)
  qed
qed

text \<open>
  In the scenario Beta's first vote is recorded; Beta's second vote, identical or for
  another primary, is rejected, and a vote of Gamma leaves Beta's entry as it was.
\<close>

theorem C5_duplicate_vote_rejected_witness:
  "snd (processViewChangeDoneMessage scenario (vote ''Beta'' 0 1) ''Beta'') =
     scenario_with [(0, [entry ''Beta'' ''Beta'' 0])] \<and>
   map_of (declarations_of (view_change_done (scenario_with [(0, [entry ''Beta'' ''Beta'' 0])])) 0)
     (generateName ''Beta'' 0) = Some (ReplicaName ''Beta'' 0, scenario_ledger_info) \<and>
   processViewChangeDoneMessage (scenario_with [(0, [entry ''Beta'' ''Beta'' 0])])
     (vote ''Gamma'' 0 1) ''Beta'' = (Inr False, scenario_with [(0, [entry ''Beta'' ''Beta'' 0])]) \<and>
   processViewChangeDoneMessage (scenario_with [(0, [entry ''Beta'' ''Beta'' 0])])
     (vote ''Beta'' 0 1) ''Beta'' = (Inr False, scenario_with [(0, [entry ''Beta'' ''Beta'' 0])]) \<and>
   map_of (declarations_of
             (view_change_done
                (snd (processViewChangeDoneMessage (scenario_with [(0, [entry ''Beta'' ''Beta'' 0])])
                        (vote ''Gamma'' 0 1) ''Gamma''))) 0)
     (generateName ''Beta'' 0) = Some (ReplicaName ''Beta'' 0, scenario_ledger_info)"
  using C5_duplicate_vote_rejected
          [of "scenario_with [(0, [entry ''Beta'' ''Beta'' 0])]" "vote ''Gamma'' 0 1" "''Beta''"
              0 "generateName ''Beta'' 0" "(ReplicaName ''Beta'' 0, scenario_ledger_info)"
              "vote ''Gamma'' 0 1" "''Gamma''"]
        C5_duplicate_vote_rejected
          [of "scenario_with [(0, [entry ''Beta'' ''Beta'' 0])]" "vote ''Beta'' 0 1" "''Beta''"
              0 "generateName ''Beta'' 0" "(ReplicaName ''Beta'' 0, scenario_ledger_info)"
              "vote ''Gamma'' 0 1" "''Gamma''"]
  by (simp add: process_unfold scenario_simps)

section \<open>Recording comes before the checks\<close>

text \<open>
  C10. A vote of the current view that the previous-master-primary rule lets through,
  from a sender not yet recorded for the instance, is appended to the instance's ledger
  by the call, whatever the call returns: the ledger after the call is the ledger
  before it followed by the sender's entry. In particular the call returns false with
  the vote recorded when the instance's replica already has a primary, and when the
  voters, the new one counted, do not reach the quorum.
\<close>

theorem C10_vote_recorded_before_checks:
  "viewNo msg = self_viewNo s \<and>
   \<not> (is_master_instance (instId msg) \<and>
      Some (getNodeName (name msg)) = previous_master_primary s) \<and>
   map_of (declarations_of (view_change_done s) (instId msg))
     (generateName sender (instId msg)) = None \<longrightarrow>
   declarations_of (view_change_done (snd (processViewChangeDoneMessage s msg sender)))
       (instId msg) =
     declarations_of (view_change_done s) (instId msg) @
       [(generateName sender (instId msg), (name msg, ledgerInfo msg))] \<and>
   (instId msg < length (self_replicas s) \<and> hasPrimary (self_replicas s ! instId msg) \<longrightarrow>
      fst (processViewChangeDoneMessage s msg sender) = Inr False) \<and>
   (instId msg < length (self_replicas s) \<and>
    \<not> hasViewChangeQuorum (snd (processViewChangeDoneMessage s msg sender)) (instId msg) \<longrightarrow>
      fst (processViewChangeDoneMessage s msg sender) = Inr False)"
proof (intro impI)
  assume a: "viewNo msg = self_viewNo s \<and>
   \<not> (is_master_instance (instId msg) \<and>
      Some (getNodeName (name msg)) = previous_master_primary s) \<and>
   map_of (declarations_of (view_change_done s) (instId msg))
     (generateName sender (instId msg)) = None"
  then have view: "viewNo msg = self_viewNo s"
    and flap: "\<not> (instId msg = 0 \<and> Some (getNodeName (name msg)) = previous_master_primary s)"
    and fresh: "map_of (declarations_of (view_change_done s) (instId msg))
                  (generateName sender (instId msg)) = None"
    by (simp_all add: is_master_instance_def)
  note rec = process_recorded [OF view flap fresh]
  have 1: "declarations_of (view_change_done (snd (processViewChangeDoneMessage s msg sender)))
       (instId msg) =
     declarations_of (view_change_done s) (instId msg) @
       [(generateName sender (instId msg), (name msg, ledgerInfo msg))]"
    by (simp add: process_declarations [OF view flap fresh])
  have 2: "fst (processViewChangeDoneMessage s msg sender) = Inr False"
    if "instId msg < length (self_replicas s) \<and> hasPrimary (self_replicas s ! instId msg)"
    using that by (simp add: process_has_primary)
  have 3: "fst (processViewChangeDoneMessage s msg sender) = Inr False"
    if b: "instId msg < length (self_replicas s) \<and>
      \<not> hasViewChangeQuorum (snd (processViewChangeDoneMessage s msg sender)) (instId msg)"
  proof (cases "hasPrimary (self_replicas s ! instId msg)")
    case True
    with b show ?thesis by (simp add: process_has_primary)
  next
    case False
    from b have inst: "instId msg < length (self_replicas s)" by simp
    from b have nq: "\<not> hasViewChangeQuorum
        (s\<lparr>view_change_done :=
              AList.update (instId msg)
                (declarations_of (view_change_done s) (instId msg) @
                   [(generateName sender (instId msg), (name msg, ledgerInfo msg))])
                (view_change_done s)\<rparr>) (instId msg)"
      unfolding rec by simp
    show ?thesis
      unfolding process_after_record [OF view flap fresh inst False refl refl]
      using nq by simp
  qed
  from 1 2 3 show "declarations_of (view_change_done (snd (processViewChangeDoneMessage s msg sender)))
       (instId msg) =
     declarations_of (view_change_done s) (instId msg) @
       [(generateName sender (instId msg), (name msg, ledgerInfo msg))] \<and>
   (instId msg < length (self_replicas s) \<and> hasPrimary (self_replicas s ! instId msg) \<longrightarrow>
      fst (processViewChangeDoneMessage s msg sender) = Inr False) \<and>
   (instId msg < length (self_replicas s) \<and>
    \<not> hasViewChangeQuorum (snd (processViewChangeDoneMessage s msg sender)) (instId msg) \<longrightarrow>
      fst (processViewChangeDoneMessage s msg sender) = Inr False)"
    by blast
qed

text \<open>
  The first vote of the scenario is recorded and returns false for want of a quorum; a
  vote for an instance that has its primary is recorded and returns false.
\<close>

theorem C10_vote_recorded_before_checks_witness:
  "viewNo (vote ''Beta'' 0 1) = self_viewNo scenario \<and>
   map_of (declarations_of (view_change_done scenario) 0) (generateName ''Beta'' 0) = None \<and>
   \<not> hasViewChangeQuorum (scenario_with [(0, [entry ''Beta'' ''Beta'' 0])]) 0 \<and>
   processViewChangeDoneMessage scenario (vote ''Beta'' 0 1) ''Beta'' =
     (Inr False, scenario_with [(0, [entry ''Beta'' ''Beta'' 0])]) \<and>
   hasPrimary (self_replicas
      (scenario\<lparr>self_replicas := [\<lparr>primaryName = Some (ReplicaName ''Beta'' 0)\<rparr>]\<rparr>) ! 0) \<and>
   fst (processViewChangeDoneMessage
          (scenario\<lparr>self_replicas := [\<lparr>primaryName = Some (ReplicaName ''Beta'' 0)\<rparr>]\<rparr>)
          (vote ''Beta'' 0 1) ''Gamma'') = Inr False \<and>
   declarations_of (view_change_done (snd (processViewChangeDoneMessage
          (scenario\<lparr>self_replicas := [\<lparr>primaryName = Some (ReplicaName ''Beta'' 0)\<rparr>]\<rparr>)
          (vote ''Beta'' 0 1) ''Gamma''))) 0 = [entry ''Gamma'' ''Beta'' 0]"
  using C10_vote_recorded_before_checks [of "vote ''Beta'' 0 1" scenario "''Beta''"]
        C10_vote_recorded_before_checks
          [of "vote ''Beta'' 0 1"
              "scenario\<lparr>self_replicas := [\<lparr>primaryName = Some (ReplicaName ''Beta'' 0)\<rparr>]\<rparr>"
              "''Gamma''"]
  by (simp add: process_unfold scenario_simps)

section \<open>A majority that disagrees with the schedule\<close>

text \<open>
  C3, as the code has it. A vote that reaches \<^verbatim>\<open>_verify_primary_selection\<close> has passed
  \<^verbatim>\<open>_track_view_change_done\<close>, which stored it. When the majority's claimed primary
  is not the expected primary, the call returns false; the replicas (so every replica's
  primary), the previous master primary and the view number are what they were, and
  the selector differs from the one before the call in the vote ledger alone. There the
  instance of the vote has gained the sender's entry and every other instance is
  unchanged.
\<close>

theorem C3_mismatch_rejected_vote_kept:
  assumes view: "viewNo msg = self_viewNo s"
    and flap: "\<not> (is_master_instance (instId msg) \<and>
                  Some (getNodeName (name msg)) = previous_master_primary s)"
    and fresh: "map_of (declarations_of (view_change_done s) (instId msg))
                  (generateName sender (instId msg)) = None"
    and inst: "instId msg < length (self_replicas s)"
    and undecided: "\<not> hasPrimary (self_replicas s ! instId msg)"
    and s': "s' = snd (processViewChangeDoneMessage s msg sender)"
    and quorum: "hasViewChangeQuorum s' (instId msg)"
    and primary: "has_view_change_from_primary s' (instId msg) = Inr True"
    and majority: "has_sufficient_same_view_change_done_messages s' (instId msg) =
                     Inr (Some (new_primary, ledger_info))"
    and expected: "who_is_the_next_primary s' (instId msg) = Inr expected_primary"
    and mismatch: "new_primary \<noteq> expected_primary"
  shows "fst (processViewChangeDoneMessage s msg sender) = Inr False \<and>
         s' = s\<lparr>view_change_done := view_change_done s'\<rparr> \<and>
         self_replicas s' = self_replicas s \<and>
         previous_master_primary s' = previous_master_primary s \<and>
         self_viewNo s' = self_viewNo s \<and>
         declarations_of (view_change_done s') (instId msg) =
           declarations_of (view_change_done s) (instId msg) @
             [(generateName sender (instId msg), (name msg, ledgerInfo msg))] \<and>
         (\<forall>j. j \<noteq> instId msg \<longrightarrow>
            declarations_of (view_change_done s') j = declarations_of (view_change_done s) j)"
proof -
  from flap have flap': "\<not> (instId msg = 0 \<and>
      Some (getNodeName (name msg)) = previous_master_primary s)"
    by (simp add: is_master_instance_def)
  have rec: "s' = s\<lparr>view_change_done :=
              AList.update (instId msg)
                (declarations_of (view_change_done s) (instId msg) @
                   [(generateName sender (instId msg), (name msg, ledgerInfo msg))])
                (view_change_done s)\<rparr>"
    unfolding s' by (rule process_recorded [OF view flap' fresh])
  have verify: "verify_primary_selection s' (instId msg) new_primary ledger_info = Inr False"
    unfolding verify_primary_selection_def expected using mismatch by simp
  have "processViewChangeDoneMessage s msg sender =
          (verify_primary_selection s' (instId msg) new_primary ledger_info, s')"
    unfolding process_after_record [OF view flap' fresh inst undecided refl rec]
    using quorum primary majority by simp
  then have res: "fst (processViewChangeDoneMessage s msg sender) = Inr False"
    by (simp add: verify)
  have frame: "s' = s\<lparr>view_change_done := view_change_done s'\<rparr>"
    unfolding s' by (rule process_frame)
  have fields: "self_replicas s' = self_replicas s"
    "previous_master_primary s' = previous_master_primary s"
    "self_viewNo s' = self_viewNo s"
    by (subst frame, simp)+
  have decl: "declarations_of (view_change_done s') j =
     (if j = instId msg
      then declarations_of (view_change_done s) (instId msg) @
             [(generateName sender (instId msg), (name msg, ledgerInfo msg))]
      else declarations_of (view_change_done s) j)" for j
    unfolding s' by (rule process_declarations [OF view flap' fresh])
  from res frame fields decl show ?thesis by simp
qed

text \<open>
  Gamma and Delta have voted for Gamma's replica on instance 0, whose expected primary
  is Beta's replica; Beta sends the same vote.
\<close>

theorem C3_mismatch_rejected_vote_kept_witness:
  "fst (processViewChangeDoneMessage
          (scenario_with [(0, [entry ''Gamma'' ''Gamma'' 0, entry ''Delta'' ''Gamma'' 0])])
          (vote ''Gamma'' 0 1) ''Beta'') = Inr False \<and>
   self_replicas
     (snd (processViewChangeDoneMessage
             (scenario_with [(0, [entry ''Gamma'' ''Gamma'' 0, entry ''Delta'' ''Gamma'' 0])])
             (vote ''Gamma'' 0 1) ''Beta'')) = self_replicas scenario \<and>
   declarations_of (view_change_done
     (snd (processViewChangeDoneMessage
             (scenario_with [(0, [entry ''Gamma'' ''Gamma'' 0, entry ''Delta'' ''Gamma'' 0])])
             (vote ''Gamma'' 0 1) ''Beta''))) 0 =
     [entry ''Gamma'' ''Gamma'' 0, entry ''Delta'' ''Gamma'' 0, entry ''Beta'' ''Gamma'' 0] \<and>
   hasViewChangeQuorum
     (snd (processViewChangeDoneMessage
             (scenario_with [(0, [entry ''Gamma'' ''Gamma'' 0, entry ''Delta'' ''Gamma'' 0])])
             (vote ''Gamma'' 0 1) ''Beta'')) 0 \<and>
   has_view_change_from_primary
     (snd (processViewChangeDoneMessage
             (scenario_with [(0, [entry ''Gamma'' ''Gamma'' 0, entry ''Delta'' ''Gamma'' 0])])
             (vote ''Gamma'' 0 1) ''Beta'')) 0 = Inr True \<and>
   ReplicaName ''Gamma'' 0 \<noteq> ReplicaName ''Beta'' 0"
  using C3_mismatch_rejected_vote_kept
          [of "vote ''Gamma'' 0 1"
              "scenario_with [(0, [entry ''Gamma'' ''Gamma'' 0, entry ''Delta'' ''Gamma'' 0])]"
              "''Beta''"
              "snd (processViewChangeDoneMessage
                 (scenario_with [(0, [entry ''Gamma'' ''Gamma'' 0, entry ''Delta'' ''Gamma'' 0])])
                 (vote ''Gamma'' 0 1) ''Beta'')"
              "ReplicaName ''Gamma'' 0" scenario_ledger_info "ReplicaName ''Beta'' 0"]
  by (simp add: process_unfold scenario_simps)

text \<open>
  C3 as stated fails there: the call reaches the final verification with a majority
  for Gamma's replica against the expected Beta's, returns false, and the vote ledger
  after the call holds Beta's vote, which it did not hold before.
\<close>

theorem C3_mismatch_changes_ledger_counterexample:
  "has_sufficient_same_view_change_done_messages
     (snd (processViewChangeDoneMessage
             (scenario_with [(0, [entry ''Gamma'' ''Gamma'' 0, entry ''Delta'' ''Gamma'' 0])])
             (vote ''Gamma'' 0 1) ''Beta'')) 0 =
     Inr (Some (ReplicaName ''Gamma'' 0, scenario_ledger_info)) \<and>
   who_is_the_next_primary
     (snd (processViewChangeDoneMessage
             (scenario_with [(0, [entry ''Gamma'' ''Gamma'' 0, entry ''Delta'' ''Gamma'' 0])])
             (vote ''Gamma'' 0 1) ''Beta'')) 0 = Inr (ReplicaName ''Beta'' 0) \<and>
   fst (processViewChangeDoneMessage
          (scenario_with [(0, [entry ''Gamma'' ''Gamma'' 0, entry ''Delta'' ''Gamma'' 0])])
          (vote ''Gamma'' 0 1) ''Beta'') = Inr False \<and>
   view_change_done
     (snd (processViewChangeDoneMessage
             (scenario_with [(0, [entry ''Gamma'' ''Gamma'' 0, entry ''Delta'' ''Gamma'' 0])])
             (vote ''Gamma'' 0 1) ''Beta'')) =
     [(0, [entry ''Gamma'' ''Gamma'' 0, entry ''Delta'' ''Gamma'' 0, entry ''Beta'' ''Gamma'' 0])] \<and>
   view_change_done
     (snd (processViewChangeDoneMessage
             (scenario_with [(0, [entry ''Gamma'' ''Gamma'' 0, entry ''Delta'' ''Gamma'' 0])])
             (vote ''Gamma'' 0 1) ''Beta'')) \<noteq>
     view_change_done
       (scenario_with [(0, [entry ''Gamma'' ''Gamma'' 0, entry ''Delta'' ''Gamma'' 0])])"
  by (simp add: process_unfold scenario_simps)

section \<open>Calls of \<^verbatim>\<open>node.primary_found\<close>\<close>

text \<open>
  C9, as the code has it. In a pool with nodes \<^verbatim>\<open>_startSelection\<close> raises nothing and
  calls \<^verbatim>\<open>node.primary_found()\<close> once for each replica that has no primary when the
  loop comes to it: the number of calls grows by the number of replicas without
  primary. These are the replicas that adopt a primary in the run: when it ends, every
  instance whose replica had no primary has the expected primary of
  \<^verbatim>\<open>_who_is_the_next_primary\<close> for the instance, every other replica has the primary
  it had, and the number of replicas is the same. \<^verbatim>\<open>_processViewChangeDoneMessage\<close>
  never calls \<^verbatim>\<open>node.primary_found()\<close> and gives no replica a primary, whatever it
  returns.
\<close>

theorem C9_primary_found_per_instance:
  "(0 < node_totalNodes s \<longrightarrow>
      fst (startSelection s) = Inr () \<and>
      node_primary_found_calls (snd (startSelection s)) =
        node_primary_found_calls s +
        length (filter (\<lambda>replica. primaryName replica = None) (self_replicas s)) \<and>
      length (self_replicas (snd (startSelection s))) = length (self_replicas s) \<and>
      (instance_id < length (self_replicas s) \<longrightarrow>
         primaryName (self_replicas (snd (startSelection s)) ! instance_id) =
           (if primaryName (self_replicas s ! instance_id) = None
            then Some (generateName (node_get_name_by_rank s
                         ((self_viewNo s + instance_id) mod node_totalNodes s)) instance_id)
            else primaryName (self_replicas s ! instance_id)))) \<and>
   node_primary_found_calls (snd (processViewChangeDoneMessage s msg sender)) =
     node_primary_found_calls s \<and>
   self_replicas (snd (processViewChangeDoneMessage s msg sender)) = self_replicas s"
proof -
  have calls: "fst (startSelection s) = Inr () \<and>
      node_primary_found_calls (snd (startSelection s)) =
        node_primary_found_calls s +
        length (filter (\<lambda>i. primaryName (self_replicas s ! i) = None)
                  [0..<length (self_replicas s)])"
    if "0 < node_totalNodes s"
    unfolding startSelection_def
    by (rule startSelection_loop_calls) (use that in simp_all)
  have reps: "length (self_replicas (snd (startSelection s))) = length (self_replicas s) \<and>
         (\<forall>j < length (self_replicas s).
            primaryName (self_replicas (snd (startSelection s)) ! j) =
              (if j \<in> set [0..<length (self_replicas s)] \<and>
                  primaryName (self_replicas s ! j) = None
               then Some (generateName (node_get_name_by_rank s
                            ((self_viewNo s + j) mod node_totalNodes s)) j)
               else primaryName (self_replicas s ! j)))"
    if "0 < node_totalNodes s"
    unfolding startSelection_def
    by (rule startSelection_loop_replicas) (use that in simp_all)
  have frame: "self_replicas (snd (processViewChangeDoneMessage s msg sender)) = self_replicas s"
    by (subst process_frame) simp
  show ?thesis
    using calls reps
    by (simp add: length_filter_nth [of "\<lambda>r. primaryName r = None"]
          process_primary_found_calls frame)
qed

text \<open>
  The scenario has two instances without primary: two calls in one run, and instance 1
  ends with Gamma's replica as its primary. On the settled view no replica lacks a
  primary: no call, and the master keeps Beta's replica. A vote makes no call.
\<close>

theorem C9_primary_found_per_instance_witness:
  "0 < node_totalNodes scenario \<and>
   length (filter (\<lambda>replica. primaryName replica = None) (self_replicas scenario)) = 2 \<and>
   fst (startSelection scenario) = Inr () \<and>
   node_primary_found_calls (snd (startSelection scenario)) =
     node_primary_found_calls scenario + 2 \<and>
   (1::nat) < length (self_replicas scenario) \<and>
   primaryName (self_replicas scenario ! 1) = None \<and>
   primaryName (self_replicas (snd (startSelection scenario)) ! 1) =
     Some (ReplicaName ''Gamma'' 1) \<and>
   (0::nat) < length (self_replicas scenario_decided) \<and>
   primaryName (self_replicas scenario_decided ! 0) = Some (ReplicaName ''Beta'' 0) \<and>
   primaryName (self_replicas (snd (startSelection scenario_decided)) ! 0) =
     Some (ReplicaName ''Beta'' 0) \<and>
   node_primary_found_calls (snd (startSelection scenario_decided)) =
     node_primary_found_calls scenario_decided \<and>
   node_primary_found_calls
     (snd (processViewChangeDoneMessage scenario (vote ''Beta'' 0 1) ''Beta'')) = 0"
  using C9_primary_found_per_instance [of scenario 1 "vote ''Beta'' 0 1" "''Beta''"]
        C9_primary_found_per_instance [of scenario_decided 0 "vote ''Beta'' 0 1" "''Beta''"]
  by (simp add: scenario_def scenario_decided_def four_nodes_def generateName_def)

text \<open>
  C9 as stated fails there: one run of \<^verbatim>\<open>_startSelection\<close> in view 1 gives both
  instances their primary and calls \<^verbatim>\<open>node.primary_found()\<close> twice, not once.
\<close>

theorem C9_primary_found_twice_counterexample:
  "map primaryName (self_replicas scenario) = [None, None] \<and>
   node_primary_found_calls scenario = 0 \<and>
   fst (startSelection scenario) = Inr () \<and>
   map primaryName (self_replicas (snd (startSelection scenario))) =
     [Some (ReplicaName ''Beta'' 0), Some (ReplicaName ''Gamma'' 1)] \<and>
   node_primary_found_calls (snd (startSelection scenario)) = 2"
  by (simp add: startSelection_def send_view_change_done_message_def track_view_change_done_def
        primaryChanged_def upt_rec scenario_simps)

section \<open>A new view\<close>

text \<open>
  C6, as the code has it. When the base class reports a new view,
  \<^verbatim>\<open>view_change_started\<close> leaves every instance of the vote ledger with an empty voter
  mapping (the instances stay the keys they were). On the selector it returns,
  \<^verbatim>\<open>_track_view_change_done\<close> accepts any vote of any sender for any instance as the
  first one of its mapping, so no vote is rejected as a duplicate, a vote recorded
  before the reset included. \<^verbatim>\<open>_processViewChangeDoneMessage\<close> records a vote that
  carries the new view number as the only entry of its instance, provided the rule on
  the previous master primary, which stands before the recording, lets it through.
  The base class's method is a parameter: the statement holds for whatever it does to
  the selector.
\<close>

theorem C6_view_change_clears_votes:
  assumes "super viewNo' s = (True, s1)"
    and "s' = view_change_started super viewNo' s"
  shows "list_all (\<lambda>(i, d). d = []) (view_change_done s') \<and>
         map fst (view_change_done s') = map fst (view_change_done s1) \<and>
         declarations_of (view_change_done s') i = [] \<and>
         track_view_change_done i sender_replica_name new_primary ledger_info s' =
           (True, s'\<lparr>view_change_done :=
                     AList.update i [(sender_replica_name, (new_primary, ledger_info))]
                       (view_change_done s')\<rparr>) \<and>
         (viewNo msg = self_viewNo s' \<and>
          \<not> (is_master_instance (instId msg) \<and>
             Some (getNodeName (name msg)) = previous_master_primary s') \<longrightarrow>
            declarations_of (view_change_done (snd (processViewChangeDoneMessage s' msg sender)))
              (instId msg) =
              [(generateName sender (instId msg), (name msg, ledgerInfo msg))])"
proof -
  have s': "s' = s1\<lparr>view_change_done := map (\<lambda>(i, d). (i, [])) (view_change_done s1)\<rparr>"
    unfolding assms(2) using assms(1) by (rule view_change_started_new_view)
  have empty: "declarations_of (view_change_done s') j = []" for j
    by (simp add: s' declarations_of_cleared)
  have 1: "list_all (\<lambda>(i, d). d = []) (view_change_done s')"
    by (simp add: s' cleared_all_empty)
  have 2: "map fst (view_change_done s') = map fst (view_change_done s1)"
    unfolding s' using cleared_keys [of "view_change_done s1"] by simp
  have 3: "track_view_change_done i sender_replica_name new_primary ledger_info s' =
           (True, s'\<lparr>view_change_done :=
                     AList.update i [(sender_replica_name, (new_primary, ledger_info))]
                       (view_change_done s')\<rparr>)"
    by (simp add: track_view_change_done_eq empty)
  have 4: "declarations_of (view_change_done (snd (processViewChangeDoneMessage s' msg sender)))
              (instId msg) =
              [(generateName sender (instId msg), (name msg, ledgerInfo msg))]"
    if a: "viewNo msg = self_viewNo s' \<and>
          \<not> (is_master_instance (instId msg) \<and>
             Some (getNodeName (name msg)) = previous_master_primary s')"
  proof -
    from a have view: "viewNo msg = self_viewNo s'"
      and flap: "\<not> (instId msg = 0 \<and> Some (getNodeName (name msg)) = previous_master_primary s')"
      by (simp_all add: is_master_instance_def)
    have fresh: "map_of (declarations_of (view_change_done s') (instId msg))
                   (generateName sender (instId msg)) = None"
      by (simp add: empty)
    show ?thesis
      by (simp add: process_declarations [OF view flap fresh] empty)
  qed
  from 1 2 empty 3 4 show ?thesis by blast
qed

text \<open>
  Beta's votes for instances 0 and 1 are recorded in view 1, with no primary decided.
  View 2 begins; Beta's vote for instance 1, replayed with view number 2, is recorded
  as the first vote of the instance.
\<close>

theorem C6_view_change_clears_votes_witness:
  "PrimaryDecider_view_change_started 2
     (scenario_with [(0, [entry ''Beta'' ''Beta'' 0]), (1, [entry ''Beta'' ''Gamma'' 1])]) =
     (True, (scenario_with [(0, [entry ''Beta'' ''Beta'' 0]), (1, [entry ''Beta'' ''Gamma'' 1])])
              \<lparr>self_viewNo := 2, previous_master_primary := None\<rparr>) \<and>
   view_change_done
     (view_change_started PrimaryDecider_view_change_started 2
        (scenario_with [(0, [entry ''Beta'' ''Beta'' 0]), (1, [entry ''Beta'' ''Gamma'' 1])])) =
     [(0, []), (1, [])] \<and>
   viewNo (vote ''Gamma'' 1 2) =
     self_viewNo (view_change_started PrimaryDecider_view_change_started 2
        (scenario_with [(0, [entry ''Beta'' ''Beta'' 0]), (1, [entry ''Beta'' ''Gamma'' 1])])) \<and>
   view_change_done
     (snd (processViewChangeDoneMessage
        (view_change_started PrimaryDecider_view_change_started 2
           (scenario_with [(0, [entry ''Beta'' ''Beta'' 0]), (1, [entry ''Beta'' ''Gamma'' 1])]))
        (vote ''Gamma'' 1 2) ''Beta'')) = [(0, []), (1, [entry ''Beta'' ''Gamma'' 1])]"
  using C6_view_change_clears_votes
    [of PrimaryDecider_view_change_started 2
        "scenario_with [(0, [entry ''Beta'' ''Beta'' 0]), (1, [entry ''Beta'' ''Gamma'' 1])]"
        "(scenario_with [(0, [entry ''Beta'' ''Beta'' 0]), (1, [entry ''Beta'' ''Gamma'' 1])])
              \<lparr>self_viewNo := 2, previous_master_primary := None\<rparr>"
        "view_change_started PrimaryDecider_view_change_started 2
           (scenario_with [(0, [entry ''Beta'' ''Beta'' 0]), (1, [entry ''Beta'' ''Gamma'' 1])])"
        1 "ReplicaName ''Beta'' 1" "ReplicaName ''Gamma'' 1" scenario_ledger_info
        "vote ''Gamma'' 1 2" "''Beta''"]
  by (simp add: PrimaryDecider_view_change_started_def view_change_started_def process_unfold
        scenario_simps)

text \<open>
  C6 as stated fails on the settled view 1: Beta's vote for Beta's replica on the master
  instance is recorded there. View 2 begins, the previous master primary is now Beta,
  and the same vote replayed with view number 2 is rejected and not recorded.
\<close>

theorem C6_replayed_vote_for_previous_primary_counterexample:
  "map_of (declarations_of (view_change_done scenario_decided) 0) (generateName ''Beta'' 0) =
     Some (name (vote ''Beta'' 0 1), ledgerInfo (vote ''Beta'' 0 1)) \<and>
   self_viewNo (view_change_started PrimaryDecider_view_change_started 2 scenario_decided) =
     viewNo (vote ''Beta'' 0 2) \<and>
   name (vote ''Beta'' 0 2) = name (vote ''Beta'' 0 1) \<and>
   ledgerInfo (vote ''Beta'' 0 2) = ledgerInfo (vote ''Beta'' 0 1) \<and>
   view_change_done (view_change_started PrimaryDecider_view_change_started 2 scenario_decided) =
     [(0, [])] \<and>
   previous_master_primary
     (view_change_started PrimaryDecider_view_change_started 2 scenario_decided) = Some ''Beta'' \<and>
   processViewChangeDoneMessage
     (view_change_started PrimaryDecider_view_change_started 2 scenario_decided)
     (vote ''Beta'' 0 2) ''Beta'' =
     (Inr False, view_change_started PrimaryDecider_view_change_started 2 scenario_decided)"
  by (simp add: PrimaryDecider_view_change_started_def view_change_started_def process_unfold
        scenario_decided_def scenario_simps)

section \<open>Messages for lagged nodes\<close>

text \<open>
  C8. On a ledger whose instances are distinct keys, \<^verbatim>\<open>get_msgs_for_lagged_nodes\<close>
  returns, for every instance id, exactly one message with that id when this node's own
  replica has a vote recorded for the instance, and none otherwise. Every message
  returned carries the claimed primary and the ledger info of that recorded self-vote,
  and the selector's current view number.
\<close>

theorem C8_lagged_messages_are_self_votes:
  "distinct (map fst (view_change_done s)) \<longrightarrow>
     length (filter (\<lambda>m. instId m = i) (get_msgs_for_lagged_nodes s)) =
       (if map_of (declarations_of (view_change_done s) i) (generateName (self_name s) i) \<noteq> None
        then 1 else 0) \<and>
     (m \<in> set (get_msgs_for_lagged_nodes s) \<longrightarrow>
        map_of (declarations_of (view_change_done s) (instId m))
          (generateName (self_name s) (instId m)) = Some (name m, ledgerInfo m) \<and>
        viewNo m = self_viewNo s)"
  unfolding get_msgs_for_lagged_nodes_def
  using lagged_loop_count [of "view_change_done s" i s]
    lagged_loop_content [of "view_change_done s" m s]
  by blast

text \<open>
  Alpha, the node of the scenario, has voted on instance 0 and not on instance 1: the
  one message is its vote for instance 0, tagged with view 1.
\<close>

theorem C8_lagged_messages_are_self_votes_witness:
  "distinct (map fst (view_change_done
     (scenario_with [(0, [entry ''Beta'' ''Beta'' 0, entry ''Alpha'' ''Beta'' 0]),
                     (1, [entry ''Beta'' ''Gamma'' 1])]))) \<and>
   get_msgs_for_lagged_nodes
     (scenario_with [(0, [entry ''Beta'' ''Beta'' 0, entry ''Alpha'' ''Beta'' 0]),
                     (1, [entry ''Beta'' ''Gamma'' 1])]) = [vote ''Beta'' 0 1] \<and>
   length (filter (\<lambda>m. instId m = 0) (get_msgs_for_lagged_nodes
     (scenario_with [(0, [entry ''Beta'' ''Beta'' 0, entry ''Alpha'' ''Beta'' 0]),
                     (1, [entry ''Beta'' ''Gamma'' 1])]))) = 1 \<and>
   vote ''Beta'' 0 1 \<in> set (get_msgs_for_lagged_nodes
     (scenario_with [(0, [entry ''Beta'' ''Beta'' 0, entry ''Alpha'' ''Beta'' 0]),
                     (1, [entry ''Beta'' ''Gamma'' 1])])) \<and>
   viewNo (vote ''Beta'' 0 1) = 1"
  using C8_lagged_messages_are_self_votes
    [of "scenario_with [(0, [entry ''Beta'' ''Beta'' 0, entry ''Alpha'' ''Beta'' 0]),
                        (1, [entry ''Beta'' ''Gamma'' 1])]" 0 "vote ''Beta'' 0 1"]
  by (simp add: get_msgs_for_lagged_nodes_def scenario_simps)

end
